theory Spec2Isabelle
  imports Main
begin

section \<open>Objects, property tables and errors\<close>

text \<open>
  The repository is JavaScript. The fragment of the object model that the aggregation
  helper, the abstract-class guards and the genealogy example rely on is embedded here:
  \<^item> an object is a table of own properties (in own-key order) together with the tables
    of the objects on its prototype chain;
  \<^item> a property key is a string or a symbol;
  \<^item> a property holds a descriptor, copied as a whole by \<^verbatim>\<open>Object.defineProperty\<close>;
    every property that a copy can reach is created by class syntax or by plain assignment
    on an extensible object, hence configurable and writable, so defining a property
    always replaces or adds (the \<^verbatim>\<open>prototype\<close> of a class is not configurable, and is
    never written: it is in the Exclusion Set);
  \<^item> a thrown exception is the \<open>Inl\<close> branch of a sum.
\<close>

datatype type_error =
    NotAConstructor   \<comment> \<open>\<^verbatim>\<open>new x\<close>, \<^verbatim>\<open>super(...)\<close> or \<^verbatim>\<open>class extends x\<close> on a non-constructor\<close>
  | InvalidPrototype  \<comment> \<open>\<^verbatim>\<open>class extends x\<close> where \<^verbatim>\<open>x.prototype\<close> is neither an object nor null\<close>
  | NotAnObject       \<comment> \<open>property read on, or conversion to object of, undefined or null\<close>
  | NotAFunction      \<comment> \<open>call of a value that is not a function\<close>
  | NotIterable       \<comment> \<open>\<^verbatim>\<open>for ... of\<close> over a value that is not iterable\<close>

text \<open>
  \<open>Unmodelled\<close> is not an exception. It marks a run that reaches code the embedding does
  not have: the getter of an accessor property, or an object of the language's library
  (\<^verbatim>\<open>Object.prototype\<close>, \<^verbatim>\<open>Function.prototype\<close>). Such a run is not followed further.
\<close>

datatype error =
    TypeError type_error
  | Error string      \<comment> \<open>\<^verbatim>\<open>new Error(message)\<close>\<close>
  | Unmodelled

datatype key = Name string | Symbol string

text \<open>
  A reference to a class carries the name the class was declared under and the own
  \<^verbatim>\<open>name\<close> property of the class, which is what \<^verbatim>\<open>C.name\<close> reads. The two differ when
  the class declares a static member called \<^verbatim>\<open>name\<close>. No copy writes that property (it
  is in the Exclusion Set), so it is the same for the whole life of the class.
\<close>

datatype val =
    Undefined
  | Num int
  | Str string
  | ObjectLit         \<comment> \<open>the literal \<^verbatim>\<open>{}\<close>\<close>
  | ArrayLit          \<comment> \<open>the literal \<^verbatim>\<open>[]\<close>\<close>
  | Fn string         \<comment> \<open>a function, named by the place that declares it\<close>
  | ClassRef string desc  \<comment> \<open>a reference to the class declared under that name, with its \<^verbatim>\<open>name\<close> property\<close>
  | PrototypeOf string  \<comment> \<open>a reference to the prototype object of that class\<close>
and desc =
    Data val
  | Accessor string   \<comment> \<open>a getter/setter pair, named by the place that declares it\<close>

type_synonym props = "(key \<times> desc) list"

record obj =
  own :: props
  protos :: "props list"

fun lookup_chain :: "props list \<Rightarrow> key \<Rightarrow> desc option" where
  "lookup_chain [] k = None"
| "lookup_chain (p # ps) k =
     (case map_of p k of Some d \<Rightarrow> Some d | None \<Rightarrow> lookup_chain ps k)"

text \<open>\<^verbatim>\<open>o[k]\<close>: the own property first, then the prototype chain.\<close>

definition get :: "obj \<Rightarrow> key \<Rightarrow> desc option" where
  "get ob k = (case map_of (own ob) k of Some d \<Rightarrow> Some d | None \<Rightarrow> lookup_chain (protos ob) k)"

text \<open>
  \<^verbatim>\<open>Object.defineProperty(target, prop, descriptor)\<close> on a configurable or absent
  property: an existing key keeps its place, a new key goes last.
\<close>

fun defineProperty :: "props \<Rightarrow> key \<Rightarrow> desc \<Rightarrow> props" where
  "defineProperty [] k d = [(k, d)]"
| "defineProperty ((k', d') # ps) k d =
     (if k' = k then (k, d) # ps else (k', d') # defineProperty ps k d)"

text \<open>\<^verbatim>\<open>this.k = v\<close> for a field with no accessor on the prototype chain.\<close>

definition set_own :: "props \<Rightarrow> string \<Rightarrow> val \<Rightarrow> props" where
  "set_own ps k v = defineProperty ps (Name k) (Data v)"

text \<open>The i-th actual argument; a missing argument reads as \<^verbatim>\<open>undefined\<close>.\<close>

definition arg :: "val list \<Rightarrow> nat \<Rightarrow> val" where
  "arg args i = (if i < length args then args ! i else Undefined)"

section \<open>Classes\<close>

text \<open>
  A class declaration \<^verbatim>\<open>class N [extends P] { constructor(..) {..} m() {..} static s() {..} }\<close>
  has a name, a heritage, the arguments its constructor hands to \<^verbatim>\<open>super\<close>, the
  statements of its constructor after the \<^verbatim>\<open>super\<close> call (they read \<open>this\<close> and the
  arguments, and either throw or leave the own properties of \<open>this\<close> updated), the own
  properties of \<^verbatim>\<open>N.prototype\<close> and the own properties of \<^verbatim>\<open>N\<close> itself.
\<close>

datatype 'c heritage = NoExtends | ExtendsNull | Extends 'c

datatype cls = Cls
  (cname: string)
  (superclass: "cls heritage")
  (superArgs: "val list \<Rightarrow> val list")
  (body: "val list \<Rightarrow> obj \<Rightarrow> error + props")
  (prototypeOwn: props)
  (staticOwn: props)

text \<open>The members of a class body are defined one after the other, a later one of the same name replacing an earlier one.\<close>

definition defineAll :: "props \<Rightarrow> props \<Rightarrow> props" where
  "defineAll target members = fold (\<lambda>(k, d) t. defineProperty t k d) members target"

text \<open>
  What a class declaration creates: \<^verbatim>\<open>N\<close> owns \<^verbatim>\<open>length\<close>, \<^verbatim>\<open>name\<close> and \<^verbatim>\<open>prototype\<close>, on
  which the static members are then defined, so that a static member called \<^verbatim>\<open>name\<close>
  replaces the declared name; \<^verbatim>\<open>N.prototype\<close> owns \<^verbatim>\<open>constructor\<close>, which refers to
  \<^verbatim>\<open>N\<close>, and on it the methods are defined. (Class syntax does not allow a static member
  called \<^verbatim>\<open>prototype\<close>.)
\<close>

definition mk_class ::
  "string \<Rightarrow> cls heritage \<Rightarrow> nat \<Rightarrow> (val list \<Rightarrow> val list) \<Rightarrow> (val list \<Rightarrow> obj \<Rightarrow> error + props)
     \<Rightarrow> props \<Rightarrow> props \<Rightarrow> cls" where
  "mk_class n h arity sa b methods statics =
     (let sp = defineAll [(Name ''length'', Data (Num (int arity))), (Name ''name'', Data (Str n)),
                          (Name ''prototype'', Data (PrototypeOf n))] statics;
          nm = (case map_of sp (Name ''name'') of Some d \<Rightarrow> d | None \<Rightarrow> Data (Str n))
      in Cls n h sa b (defineAll [(Name ''constructor'', Data (ClassRef n nm))] methods) sp)"

text \<open>A constructor that is not written: nothing for a base class, \<^verbatim>\<open>super(...args)\<close> for a derived one.\<close>

definition no_body :: "val list \<Rightarrow> obj \<Rightarrow> error + props" where
  "no_body args this = Inr (own this)"

text \<open>
  The values a program can put where a class is expected, by what the helper does with
  them: whether \<^verbatim>\<open>extends\<close> and \<^verbatim>\<open>new\<close> accept the value, what its \<^verbatim>\<open>prototype\<close>
  property holds, and which own properties it has.
  \<^item> \<open>VClass\<close>: a class, or a constructor function: a constructor whose \<^verbatim>\<open>prototype\<close>
    property holds an object;
  \<^item> \<open>VBound\<close>: \<^verbatim>\<open>C.bind(thisArg, ...bound)\<close> for a class \<^verbatim>\<open>C\<close> that extends nothing,
    given by the name, the constructor, the prototype members and the static members of
    \<^verbatim>\<open>C\<close> and by the bound arguments: a constructor, which constructs as \<^verbatim>\<open>C\<close> does,
    and on which \<^verbatim>\<open>prototype\<close> reads undefined (a bound function has no such property
    of its own; on a bound function of a class that extends another it is found on the
    parent class, and such a value is not among these);
  \<^item> \<open>VObject\<close>: any other value, none of which is a constructor (an arrow function, a
    generator function, a plain object, a number, a string): its own properties (those of
    its wrapper object, for a primitive value) and the own properties of what its
    \<^verbatim>\<open>prototype\<close> property holds, \<open>None\<close> when that is undefined or null.
\<close>

datatype jsval =
    VUndefined
  | VNull
  | VClass cls
  | VBound string "val list \<Rightarrow> obj \<Rightarrow> error + props" props props "val list"
  | VObject props "props option"

text \<open>
  \<^verbatim>\<open>class N extends <expr> {..}\<close> where the heritage is computed: the declaration throws a
  TypeError unless the value is null, or a constructor whose \<^verbatim>\<open>prototype\<close> property
  holds an object or null.
\<close>

definition class_extends ::
  "string \<Rightarrow> jsval \<Rightarrow> nat \<Rightarrow> (val list \<Rightarrow> val list) \<Rightarrow> (val list \<Rightarrow> obj \<Rightarrow> error + props)
     \<Rightarrow> props \<Rightarrow> props \<Rightarrow> error + cls" where
  "class_extends n v arity sa b methods statics =
     (case v of
        VClass p \<Rightarrow> Inr (mk_class n (Extends p) arity sa b methods statics)
      | VNull \<Rightarrow> Inr (mk_class n ExtendsNull arity sa b methods statics)
      | VBound c f pp sp bound \<Rightarrow> Inl (TypeError InvalidPrototype)
      | _ \<Rightarrow> Inl (TypeError NotAConstructor))"

fun prototype_chain :: "cls \<Rightarrow> props list" where
  "prototype_chain (Cls n NoExtends sa b pp sp) = [pp]"
| "prototype_chain (Cls n ExtendsNull sa b pp sp) = [pp]"
| "prototype_chain (Cls n (Extends p) sa b pp sp) = pp # prototype_chain p"

fun ancestors :: "cls \<Rightarrow> cls list" where
  "ancestors (Cls n NoExtends sa b pp sp) = []"
| "ancestors (Cls n ExtendsNull sa b pp sp) = []"
| "ancestors (Cls n (Extends p) sa b pp sp) = p # ancestors p"

text \<open>
  Running the constructor of a class on the object under construction. A derived class
  runs its parent's constructor first (\<^verbatim>\<open>super(..)\<close>); with \<^verbatim>\<open>extends null\<close> the
  \<^verbatim>\<open>super\<close> call finds no constructor and throws.
\<close>

fun construct :: "cls \<Rightarrow> val list \<Rightarrow> obj \<Rightarrow> error + obj" where
  "construct (Cls n NoExtends sa b pp sp) args this =
     (case b args this of Inl e \<Rightarrow> Inl e | Inr p \<Rightarrow> Inr (this\<lparr>own := p\<rparr>))"
| "construct (Cls n ExtendsNull sa b pp sp) args this = Inl (TypeError NotAConstructor)"
| "construct (Cls n (Extends p) sa b pp sp) args this =
     (case construct p (sa args) this of
        Inl e \<Rightarrow> Inl e
      | Inr this' \<Rightarrow> (case b args this' of Inl e \<Rightarrow> Inl e | Inr q \<Rightarrow> Inr (this'\<lparr>own := q\<rparr>)))"

text \<open>The object \<^verbatim>\<open>new C(..)\<close> starts from: no own property, prototype \<^verbatim>\<open>C.prototype\<close>.\<close>

definition fresh :: "cls \<Rightarrow> obj" where
  "fresh c = \<lparr>own = [], protos = prototype_chain c\<rparr>"

text \<open>\<^verbatim>\<open>new v(...args)\<close>; a bound function constructs its class, the bound arguments first.\<close>

definition new :: "jsval \<Rightarrow> val list \<Rightarrow> error + obj" where
  "new v args =
     (case v of
        VClass c \<Rightarrow> construct c args (fresh c)
      | VBound n b pp sp bound \<Rightarrow>
          construct (Cls n NoExtends (\<lambda>args. args) b pp sp) (bound @ args)
            (fresh (Cls n NoExtends (\<lambda>args. args) b pp sp))
      | _ \<Rightarrow> Inl (TypeError NotAConstructor))"

section \<open>The abstract-class guard\<close>

text \<open>
  \<^verbatim>\<open>v.name\<close>: on a class, its own \<^verbatim>\<open>name\<close> property, read through its getter when it is
  an accessor; undefined on a number, a string, \<^verbatim>\<open>{}\<close> and \<^verbatim>\<open>[]\<close>; a TypeError on
  undefined. The name of a function and the members of a prototype object are not kept
  by the values that refer to them.
\<close>

definition name_of :: "val \<Rightarrow> error + val" where
  "name_of v =
     (case v of
        Undefined \<Rightarrow> Inl (TypeError NotAnObject)
      | ClassRef n d \<Rightarrow> (case d of Data w \<Rightarrow> Inr w | Accessor g \<Rightarrow> Inl Unmodelled)
      | Fn f \<Rightarrow> Inl Unmodelled
      | PrototypeOf n \<Rightarrow> Inl Unmodelled
      | _ \<Rightarrow> Inr Undefined)"

text \<open>
  \<^verbatim>\<open>this.constructor.name\<close>: the \<^verbatim>\<open>constructor\<close> property is looked up on \<open>this\<close>, then
  \<^verbatim>\<open>name\<close> on what it holds. A lookup that finds nothing on the tables of the chain goes
  on to \<^verbatim>\<open>Object.prototype\<close>.
\<close>

definition this_constructor_name :: "obj \<Rightarrow> error + val" where
  "this_constructor_name this =
     (case get this (Name ''constructor'') of
        None \<Rightarrow> Inl Unmodelled
      | Some (Accessor g) \<Rightarrow> Inl Unmodelled
      | Some (Data v) \<Rightarrow> name_of v)"

text \<open>
  \<^verbatim>\<open>if (this.constructor.name === 'N') throw new Error('N is abstract!');\<close>
  as in the constructors of Machine, Printer, Scanner and RelationshipBrowser.
\<close>

definition abstract_guard :: "string \<Rightarrow> val list \<Rightarrow> obj \<Rightarrow> error + props" where
  "abstract_guard n args this =
     (case this_constructor_name this of
        Inl e \<Rightarrow> Inl e
      | Inr v \<Rightarrow> if v = Str n then Inl (Error (n @ '' is abstract!'')) else Inr (own this))"

section \<open>The aggregation helper\<close>

definition excluded :: "string \<Rightarrow> bool" where
  "excluded s \<longleftrightarrow>
     s \<in> set [''constructor'', ''prototype'', ''arguments'', ''caller'', ''name'',
              ''bind'', ''call'', ''apply'', ''toString'', ''length'']"

definition getOwnPropertyNames :: "props \<Rightarrow> key list" where
  "getOwnPropertyNames source = filter (\<lambda>k. case k of Name s \<Rightarrow> True | Symbol s \<Rightarrow> False) (map fst source)"

definition getOwnPropertySymbols :: "props \<Rightarrow> key list" where
  "getOwnPropertySymbols source = filter (\<lambda>k. case k of Name s \<Rightarrow> False | Symbol s \<Rightarrow> True) (map fst source)"

text \<open>
  The body of the \<^verbatim>\<open>forEach\<close> in \<^verbatim>\<open>copyProps\<close>, key by key. \<^verbatim>\<open>prop.match\<close> exists on a
  string only: on a symbol the call throws. A descriptor that is not there makes
  \<^verbatim>\<open>Object.defineProperty\<close> throw.
\<close>

fun copyEach :: "props \<Rightarrow> key list \<Rightarrow> props \<Rightarrow> error + props" where
  "copyEach source [] target = Inr target"
| "copyEach source (Symbol s # rest) target = Inl (TypeError NotAFunction)"
| "copyEach source (Name s # rest) target =
     (if excluded s then copyEach source rest target
      else (case map_of source (Name s) of
              None \<Rightarrow> Inl (TypeError NotAnObject)
            | Some d \<Rightarrow> copyEach source rest (defineProperty target (Name s) d)))"

definition copyProps :: "props \<Rightarrow> props \<Rightarrow> error + props" where
  "copyProps target source =
     copyEach source (getOwnPropertyNames source @ getOwnPropertySymbols source) target"

text \<open>
  The \<^verbatim>\<open>forEach\<close> of the constructor of \<^verbatim>\<open>base\<close>:
  \<^verbatim>\<open>mixins.forEach((mixin) => { copyProps(this, new mixin()); })\<close>.
\<close>

fun copyInstances :: "jsval list \<Rightarrow> props \<Rightarrow> error + props" where
  "copyInstances [] this = Inr this"
| "copyInstances (mixin # rest) this =
     (case new mixin [] of
        Inl e \<Rightarrow> Inl e
      | Inr source \<Rightarrow>
          (case copyProps this (own source) of
             Inl e \<Rightarrow> Inl e
           | Inr this' \<Rightarrow> copyInstances rest this'))"

text \<open>
  What the two copies made for a provider at declaration time read:
  the own properties of \<^verbatim>\<open>mixin.prototype\<close> and those of \<^verbatim>\<open>mixin\<close>. Reading
  \<^verbatim>\<open>mixin.prototype\<close> throws on undefined and null; on a bound function of a class
  that extends nothing, and on any other value without that property, it gives
  undefined, which \<^verbatim>\<open>Object.getOwnPropertyNames\<close> refuses, as it refuses null.
\<close>

definition provided :: "jsval \<Rightarrow> (props \<times> props) option" where
  "provided mixin =
     (case mixin of
        VClass m \<Rightarrow> Some (prototypeOwn m, staticOwn m)
      | VObject ps pr \<Rightarrow> (case pr of None \<Rightarrow> None | Some pp \<Rightarrow> Some (pp, ps))
      | _ \<Rightarrow> None)"

text \<open>
  The \<^verbatim>\<open>forEach\<close> after the class:
  \<^verbatim>\<open>copyProps(base.prototype, mixin.prototype); copyProps(base, mixin);\<close>.
\<close>

fun copyTypes :: "jsval list \<Rightarrow> cls \<Rightarrow> error + cls" where
  "copyTypes [] base = Inr base"
| "copyTypes (mixin # rest) base =
     (case provided mixin of
        None \<Rightarrow> Inl (TypeError NotAnObject)
      | Some (pm, sm) \<Rightarrow>
          (case copyProps (prototypeOwn base) pm of
             Inl e \<Rightarrow> Inl e
           | Inr pp' \<Rightarrow>
               (case copyProps (staticOwn base) sm of
                  Inl e \<Rightarrow> Inl e
                | Inr sp' \<Rightarrow>
                    copyTypes rest
                      (Cls (cname base) (superclass base) (superArgs base) (body base) pp' sp'))))"

definition aggregation :: "jsval \<Rightarrow> jsval list \<Rightarrow> error + cls" where
  "aggregation baseClass mixins =
     (case class_extends ''base'' baseClass 0 (\<lambda>args. args)
             (\<lambda>args this. copyInstances mixins (own this)) [] [] of
        Inl e \<Rightarrow> Inl e
      | Inr base \<Rightarrow> copyTypes mixins base)"

section \<open>The classes of the repository\<close>

definition Journal :: cls where
  "Journal = mk_class ''Journal'' NoExtends 0 (\<lambda>args. args)
     (\<lambda>args this. Inr (set_own (own this) ''entries'' ObjectLit))
     [(Name ''addEntry'', Data (Fn ''Journal.addEntry'')),
      (Name ''removeEntry'', Data (Fn ''Journal.removeEntry'')),
      (Name ''toString'', Data (Fn ''Journal.toString''))]
     [(Name ''count'', Data (Num 0))]"

definition PersistenceManager :: cls where
  "PersistenceManager = mk_class ''PersistenceManager'' NoExtends 0 (\<lambda>args. args) no_body
     [(Name ''preprocess'', Data (Fn ''PersistenceManager.preprocess'')),
      (Name ''saveToFile'', Data (Fn ''PersistenceManager.saveToFile''))]
     []"

definition Document :: cls where
  "Document = mk_class ''Document'' NoExtends 0 (\<lambda>args. args) no_body [] []"

definition Machine :: cls where
  "Machine = mk_class ''Machine'' NoExtends 0 (\<lambda>args. args) (abstract_guard ''Machine'')
     [(Name ''print'', Data (Fn ''Machine.print'')),
      (Name ''fax'', Data (Fn ''Machine.fax'')),
      (Name ''scan'', Data (Fn ''Machine.scan''))]
     []"

definition MultiFunctionPrinter :: cls where
  "MultiFunctionPrinter = mk_class ''MultiFunctionPrinter'' (Extends Machine) 0 (\<lambda>args. args) no_body
     [(Name ''print'', Data (Fn ''MultiFunctionPrinter.print'')),
      (Name ''fax'', Data (Fn ''MultiFunctionPrinter.fax'')),
      (Name ''scan'', Data (Fn ''MultiFunctionPrinter.scan''))]
     []"

definition OldFashionedPrinter :: cls where
  "OldFashionedPrinter = mk_class ''OldFashionedPrinter'' (Extends Machine) 0 (\<lambda>args. args) no_body
     [(Name ''print'', Data (Fn ''OldFashionedPrinter.print'')),
      (Name ''scan'', Data (Fn ''OldFashionedPrinter.scan''))]
     []"

definition Printer :: cls where
  "Printer = mk_class ''Printer'' NoExtends 0 (\<lambda>args. args) (abstract_guard ''Printer'')
     [(Name ''print'', Data (Fn ''Printer.print''))] []"

definition Scanner :: cls where
  "Scanner = mk_class ''Scanner'' NoExtends 0 (\<lambda>args. args) (abstract_guard ''Scanner'')
     [(Name ''scan'', Data (Fn ''Scanner.scan''))] []"

text \<open>\<^verbatim>\<open>class Photocopier extends aggregation(Printer, Scanner) { print() {} scan() {} }\<close>\<close>

definition Photocopier :: "error + cls" where
  "Photocopier =
     (case aggregation (VClass Printer) [VClass Scanner] of
        Inl e \<Rightarrow> Inl e
      | Inr base \<Rightarrow>
          class_extends ''Photocopier'' (VClass base) 0 (\<lambda>args. args) no_body
            [(Name ''print'', Data (Fn ''Photocopier.print'')),
             (Name ''scan'', Data (Fn ''Photocopier.scan''))]
            [])"

definition Rectangle :: cls where
  "Rectangle = mk_class ''Rectangle'' NoExtends 2 (\<lambda>args. args)
     (\<lambda>args this. Inr (set_own (set_own (own this) ''_width'' (arg args 0)) ''_height'' (arg args 1)))
     [(Name ''width'', Accessor ''Rectangle.width''),
      (Name ''height'', Accessor ''Rectangle.height''),
      (Name ''area'', Accessor ''Rectangle.area''),
      (Name ''toString'', Data (Fn ''Rectangle.toString''))]
     []"

definition Square :: cls where
  "Square = mk_class ''Square'' (Extends Rectangle) 1 (\<lambda>args. [arg args 0, arg args 0]) no_body
     [(Name ''width'', Accessor ''Square.width''),
      (Name ''height'', Accessor ''Square.height'')]
     []"

definition Person :: cls where
  "Person = mk_class ''Person'' NoExtends 1 (\<lambda>args. args)
     (\<lambda>args this. Inr (set_own (own this) ''name'' (arg args 0))) [] []"

definition RelationshipBrowser :: cls where
  "RelationshipBrowser = mk_class ''RelationshipBrowser'' NoExtends 0 (\<lambda>args. args)
     (abstract_guard ''RelationshipBrowser'')
     [(Name ''findAllChildrenOf'', Data (Fn ''RelationshipBrowser.findAllChildrenOf''))] []"

definition Relationships :: cls where
  "Relationships = mk_class ''Relationships'' (Extends RelationshipBrowser) 0 (\<lambda>args. [])
     (\<lambda>args this. Inr (set_own (own this) ''data'' ArrayLit))
     [(Name ''addParentAndChild'', Data (Fn ''Relationships.addParentAndChild'')),
      (Name ''findAllChildrenOf'', Data (Fn ''Relationships.findAllChildrenOf''))]
     []"

section \<open>Notions used to state the properties\<close>

text \<open>A key of the Exclusion Set: one of the ten names the regular expression matches.\<close>

definition excluded_key :: "key \<Rightarrow> bool" where
  "excluded_key k = (case k of Name s \<Rightarrow> excluded s | Symbol s \<Rightarrow> False)"

text \<open>An object all of whose own keys are strings.\<close>

definition string_keyed :: "props \<Rightarrow> bool" where
  "string_keyed ps = list_all (\<lambda>k. case k of Name s \<Rightarrow> True | Symbol s \<Rightarrow> False) (map fst ps)"

text \<open>
  A value the \<^verbatim>\<open>extends\<close> clause of the composite accepts. Of the values above these
  are null and the constructors whose \<^verbatim>\<open>prototype\<close> property holds an object.
\<close>

definition extendable :: "jsval \<Rightarrow> bool" where
  "extendable v = (case v of VClass c \<Rightarrow> True | VNull \<Rightarrow> True | _ \<Rightarrow> False)"

text \<open>A value that \<^verbatim>\<open>new\<close> accepts.\<close>

definition is_constructor :: "jsval \<Rightarrow> bool" where
  "is_constructor v = (case v of VClass c \<Rightarrow> True | VBound n b pp sp bound \<Rightarrow> True | _ \<Rightarrow> False)"

text \<open>A value whose \<^verbatim>\<open>prototype\<close> property holds something other than undefined and null.\<close>

definition has_prototype :: "jsval \<Rightarrow> bool" where
  "has_prototype v = (case provided v of Some p \<Rightarrow> True | None \<Rightarrow> False)"

text \<open>The members a provider offers to the two copies made at declaration time.\<close>

definition prototype_members :: "jsval \<Rightarrow> props" where
  "prototype_members v = (case provided v of Some (pm, sm) \<Rightarrow> pm | None \<Rightarrow> [])"

definition static_members :: "jsval \<Rightarrow> props" where
  "static_members v = (case provided v of Some (pm, sm) \<Rightarrow> sm | None \<Rightarrow> [])"


text \<open>\<^verbatim>\<open>C.name\<close> for a class: its own \<^verbatim>\<open>name\<close> property.\<close>

definition class_name :: "cls \<Rightarrow> error + val" where
  "class_name c =
     (case map_of (staticOwn c) (Name ''name'') of
        Some (Data v) \<Rightarrow> Inr v
      | _ \<Rightarrow> Inl Unmodelled)"

text \<open>
  A class as its declaration leaves it: the \<^verbatim>\<open>constructor\<close> property of its prototype
  refers to the class.
\<close>

definition declared :: "cls \<Rightarrow> bool" where
  "declared c \<longleftrightarrow>
     (case map_of (staticOwn c) (Name ''name'') of
        Some d \<Rightarrow> map_of (prototypeOwn c) (Name ''constructor'') = Some (Data (ClassRef (cname c) d))
      | None \<Rightarrow> False)"

text \<open>A base class whose constructor is the guard on the name it is declared under.\<close>

definition has_guard :: "cls \<Rightarrow> bool" where
  "has_guard c \<longleftrightarrow> superclass c = NoExtends \<and> body c = abstract_guard (cname c)"

text \<open>
  An abstract class of the repository's kind: a class with the guard that declares no
  static member called \<^verbatim>\<open>name\<close>, so that its \<^verbatim>\<open>name\<close> property holds the name it is
  declared under.
\<close>

definition guarded :: "cls \<Rightarrow> bool" where
  "guarded c \<longleftrightarrow> has_guard c \<and> declared c \<and> class_name c = Inr (Str (cname c))"

text \<open>\<^verbatim>\<open>new X(..)\<close> where the class \<^verbatim>\<open>X\<close> is the result of an expression that may have thrown.\<close>

definition new_of :: "error + cls \<Rightarrow> val list \<Rightarrow> error + obj" where
  "new_of r args = (case r of Inl e \<Rightarrow> Inl e | Inr c \<Rightarrow> new (VClass c) args)"

text \<open>The member a class expression offers to its instances through its prototype chain.\<close>

definition prototype_member :: "error + cls \<Rightarrow> key \<Rightarrow> desc option" where
  "prototype_member r k = (case r of Inl e \<Rightarrow> None | Inr c \<Rightarrow> lookup_chain (prototype_chain c) k)"

text \<open>The own property of the object a \<^verbatim>\<open>new\<close> expression gives, if it gives one.\<close>

definition own_member :: "error + obj \<Rightarrow> key \<Rightarrow> desc option" where
  "own_member r k = (case r of Inl e \<Rightarrow> None | Inr ob \<Rightarrow> map_of (own ob) k)"

text \<open>What reading a member on the object a \<^verbatim>\<open>new\<close> expression gives finds, if it gives one.\<close>

definition instance_member :: "error + obj \<Rightarrow> key \<Rightarrow> desc option" where
  "instance_member r k = (case r of Inl e \<Rightarrow> None | Inr ob \<Rightarrow> get ob k)"

section \<open>Instances in a store\<close>





section \<open>The genealogy example: storage, abstraction and research\<close>

datatype relationship = Parent | Child | Sibling

text \<open>
  A \<^verbatim>\<open>Person\<close> object: which object it is (two objects made with the same name are two
  persons) and the name its constructor stored.
\<close>

record person =
  ident :: nat
  name :: string

record rel =
  rfrom :: person
  rtype :: relationship
  rto :: person

text \<open>The methods of \<^verbatim>\<open>Relationships\<close>, on the array \<^verbatim>\<open>this.data\<close>.\<close>

definition addParentAndChild :: "rel list \<Rightarrow> person \<Rightarrow> person \<Rightarrow> rel list" where
  "addParentAndChild data parent child =
     data @ [\<lparr>rfrom = parent, rtype = Parent, rto = child\<rparr>,
             \<lparr>rfrom = child, rtype = Child, rto = parent\<rparr>]"

definition findAllChildrenOf :: "rel list \<Rightarrow> string \<Rightarrow> person list" where
  "findAllChildrenOf data n =
     map rto (filter (\<lambda>r. name (rfrom r) = n \<and> rtype r = Parent) data)"

text \<open>
  What the loop of \<^verbatim>\<open>Research\<close> can meet in the value it iterates: a person; a value on
  which \<^verbatim>\<open>name\<close> reads undefined (an object without that property, a number, a
  character of a string); undefined or null, on which reading \<^verbatim>\<open>name\<close> throws.
\<close>

datatype element = APerson person | Nameless | Nothing

text \<open>
  What a call of \<^verbatim>\<open>findAllChildrenOf\<close> can hand back: it throws; it returns undefined, as
  the empty method of \<^verbatim>\<open>RelationshipBrowser\<close> does, or another value that cannot be
  iterated; it returns an array, or another iterable value, of elements.
\<close>

datatype answer = Raises error | NoAnswer | Items "element list"

text \<open>
  The object handed to \<^verbatim>\<open>Research\<close>, as far as \<^verbatim>\<open>Research\<close> looks at it: its
  \<^verbatim>\<open>findAllChildrenOf\<close> method, \<open>None\<close> when it has no such property or the property
  holds no function.
\<close>

datatype browser = Browser (findAllChildrenOf_of: "(string \<Rightarrow> answer) option")

text \<open>An instance of \<^verbatim>\<open>Relationships\<close> holding the given data.\<close>

definition relationships :: "rel list \<Rightarrow> browser" where
  "relationships data = Browser (Some (\<lambda>n. Items (map APerson (findAllChildrenOf data n))))"


text \<open>
  The loop \<^verbatim>\<open>for (let p of ...) console.log(`John has a child named ${p.name}`)\<close>, on the
  console so far: whether it threw, and the console afterwards.
\<close>

fun log_children :: "element list \<Rightarrow> string list \<Rightarrow> (error + unit) \<times> string list" where
  "log_children [] console = (Inr (), console)"
| "log_children (APerson p # rest) console =
     log_children rest (console @ [''John has a child named '' @ name p])"
| "log_children (Nameless # rest) console =
     log_children rest (console @ [''John has a child named undefined''])"
| "log_children (Nothing # rest) console = (Inl (TypeError NotAnObject), console)"

text \<open>The constructor of \<^verbatim>\<open>Research\<close>: the call of the method, then the loop.\<close>

definition Research :: "browser \<Rightarrow> string list \<Rightarrow> (error + unit) \<times> string list" where
  "Research browser console =
     (case findAllChildrenOf_of browser of
        None \<Rightarrow> (Inl (TypeError NotAFunction), console)
      | Some f \<Rightarrow>
          (case f ''John'' of
             Raises e \<Rightarrow> (Inl e, console)
           | NoAnswer \<Rightarrow> (Inl (TypeError NotIterable), console)
           | Items es \<Rightarrow> log_children es console))"

text \<open>
  Two elements, and two answers, with the same data: persons of the same name stand for
  each other, whichever objects they are.
\<close>

definition same_element :: "element \<Rightarrow> element \<Rightarrow> bool" where
  "same_element a b =
     (case (a, b) of
        (APerson p, APerson q) \<Rightarrow> name p = name q
      | (Nameless, Nameless) \<Rightarrow> True
      | (Nothing, Nothing) \<Rightarrow> True
      | _ \<Rightarrow> False)"

definition same_answer :: "answer \<Rightarrow> answer \<Rightarrow> bool" where
  "same_answer a b =
     (case (a, b) of
        (Raises e, Raises e') \<Rightarrow> e = e'
      | (NoAnswer, NoAnswer) \<Rightarrow> True
      | (Items es, Items fs) \<Rightarrow> list_all2 same_element es fs
      | _ \<Rightarrow> False)"


text \<open>The data the example builds before it runs \<^verbatim>\<open>new Research(rels)\<close>.\<close>

definition parent :: person where
  "parent = \<lparr>ident = 0, name = ''John''\<rparr>"

definition child1 :: person where
  "child1 = \<lparr>ident = 1, name = ''Chris''\<rparr>"

definition child2 :: person where
  "child2 = \<lparr>ident = 2, name = ''Matt''\<rparr>"

definition rels :: "rel list" where
  "rels = addParentAndChild (addParentAndChild [] parent child1) parent child2"

section \<open>Properties\<close>

lemmas mk_class_eval = mk_class_def defineAll_def Let_def

lemmas providers = extendable_def is_constructor_def has_prototype_def prototype_members_def
  static_members_def provided_def

subsection \<open>Copying properties\<close>

lemma string_keyed_iff: "string_keyed ps \<longleftrightarrow> (\<forall>k\<in>fst ` set ps. \<exists>n. k = Name n)"
proof -
  have "(case k of Name s \<Rightarrow> True | Symbol s \<Rightarrow> False) \<longleftrightarrow> (\<exists>n. k = Name n)" for k
    by (cases k) auto
  then show ?thesis
    by (simp add: string_keyed_def list_all_iff)
qed

lemma map_of_defineProperty: "map_of (defineProperty ps k d) = (map_of ps)(k \<mapsto> d)"
  by (induction ps k d rule: defineProperty.induct) (auto simp: fun_eq_iff)

lemma copyEach_Inr_names:
  "copyEach source ks t = Inr t' \<Longrightarrow> k \<in> set ks \<Longrightarrow> \<exists>s. k = Name s"
  by (induction source ks t rule: copyEach.induct) (auto split: if_splits option.splits)

lemma copyEach_map_of:
  "copyEach source ks t = Inr t' \<Longrightarrow>
   map_of t' k = (if k \<in> set ks \<and> \<not> excluded_key k then map_of source k else map_of t k)"
proof (induction source ks t rule: copyEach.induct)
  case (1 source target)
  then show ?case by simp
next
  case (2 source s rest target)
  then show ?case by simp
next
  case (3 source s rest target)
  show ?case
  proof (cases "excluded s")
    case True
    with 3 show ?thesis by (auto simp: excluded_key_def)
  next
    case False
    with "3.prems" obtain d where d: "map_of source (Name s) = Some d"
      and rest: "copyEach source rest (defineProperty target (Name s) d) = Inr t'"
      by (auto split: option.splits)
    from "3.IH"(2)[OF False d rest] False d show ?thesis
      by (auto simp: map_of_defineProperty excluded_key_def)
  qed
qed

lemma copyEach_total:
  "\<forall>k\<in>set ks. \<exists>s. k = Name s \<and> (excluded s \<or> map_of source k \<noteq> None) \<Longrightarrow>
   \<exists>t'. copyEach source ks t = Inr t'"
  by (induction source ks t rule: copyEach.induct) (auto split: option.splits)

lemma set_own_keys:
  "set (getOwnPropertyNames s @ getOwnPropertySymbols s) = fst ` set s"
proof (rule set_eqI)
  fix k
  show "k \<in> set (getOwnPropertyNames s @ getOwnPropertySymbols s) \<longleftrightarrow> k \<in> fst ` set s"
    by (cases k) (auto simp: getOwnPropertyNames_def getOwnPropertySymbols_def)
qed

lemma copyProps_map_of:
  assumes "copyProps t s = Inr t'"
  shows "map_of t' k = (if \<not> excluded_key k \<and> map_of s k \<noteq> None then map_of s k else map_of t k)"
proof -
  have "map_of t' k = (if k \<in> fst ` set s \<and> \<not> excluded_key k then map_of s k else map_of t k)"
    using copyEach_map_of[OF assms[unfolded copyProps_def], of k] unfolding set_own_keys .
  then show ?thesis
    by (auto simp: map_of_eq_None_iff)
qed

lemma copyProps_Inr_iff: "(\<exists>t'. copyProps t s = Inr t') \<longleftrightarrow> string_keyed s"
proof
  assume "\<exists>t'. copyProps t s = Inr t'"
  then obtain t' where "copyProps t s = Inr t'" ..
  then have "\<forall>k\<in>fst ` set s. \<exists>n. k = Name n"
    using copyEach_Inr_names[of s _ t t'] unfolding copyProps_def set_own_keys[symmetric] by blast
  then show "string_keyed s"
    by (simp add: string_keyed_iff)
next
  assume sk: "string_keyed s"
  have "\<forall>k\<in>set (getOwnPropertyNames s @ getOwnPropertySymbols s).
      \<exists>n. k = Name n \<and> (excluded n \<or> map_of s k \<noteq> None)"
    unfolding set_own_keys
  proof
    fix k assume k: "k \<in> fst ` set s"
    with sk obtain n where "k = Name n"
      by (auto simp: string_keyed_iff)
    with k show "\<exists>n. k = Name n \<and> (excluded n \<or> map_of s k \<noteq> None)"
      by (simp add: map_of_eq_None_iff)
  qed
  then show "\<exists>t'. copyProps t s = Inr t'"
    unfolding copyProps_def by (rule copyEach_total)
qed


lemma map_of_filter_key:
  "P k \<Longrightarrow> map_of (filter (\<lambda>p. P (fst p)) ps) k = map_of ps k"
  by (induction ps) auto

lemma copyEach_skips:
  "copyEach source ks t =
   copyEach (filter (\<lambda>p. \<not> excluded_key (fst p)) source) (filter (\<lambda>k. \<not> excluded_key k) ks) t"
proof (induction source ks t rule: copyEach.induct)
  case (1 source target)
  then show ?case by simp
next
  case (2 source s rest target)
  then show ?case by (simp add: excluded_key_def)
next
  case (3 source s rest target)
  show ?case
  proof (cases "excluded s")
    case True
    with 3 show ?thesis by (simp add: excluded_key_def)
  next
    case False
    then have k: "\<not> excluded_key (Name s)" by (simp add: excluded_key_def)
    have m: "map_of (filter (\<lambda>p. \<not> excluded_key (fst p)) source) (Name s) = map_of source (Name s)"
      using k by (rule map_of_filter_key[where P = "\<lambda>k. \<not> excluded_key k"])
    show ?thesis
    proof (cases "map_of source (Name s)")
      case None
      with False k m show ?thesis by simp
    next
      case (Some d)
      with "3.IH"(2)[OF False Some] False k m show ?thesis by simp
    qed
  qed
qed

lemma own_keys_filter:
  "getOwnPropertyNames (filter (\<lambda>p. P (fst p)) s) = filter P (getOwnPropertyNames s)"
  "getOwnPropertySymbols (filter (\<lambda>p. P (fst p)) s) = filter P (getOwnPropertySymbols s)"
  by (induction s) (auto simp: getOwnPropertyNames_def getOwnPropertySymbols_def)

lemma copyProps_skips:
  "copyProps target source = copyProps target (filter (\<lambda>p. \<not> excluded_key (fst p)) source)"
  unfolding copyProps_def
  by (subst copyEach_skips) (simp add: own_keys_filter[where P = "\<lambda>k. \<not> excluded_key k"])

subsection \<open>The copies made by the composite's constructor\<close>

lemma copyInstances_append:
  "copyInstances (xs @ ys) t =
     (case copyInstances xs t of Inl e \<Rightarrow> Inl e | Inr t' \<Rightarrow> copyInstances ys t')"
  by (induction xs arbitrary: t) (auto split: sum.splits)

lemma copyInstances_untouched:
  "copyInstances ms t = Inr t' \<Longrightarrow>
   (\<forall>m src. m \<in> set ms \<longrightarrow> new m [] = Inr src \<longrightarrow> excluded_key k \<or> map_of (own src) k = None) \<Longrightarrow>
   map_of t' k = map_of t k"
proof (induction ms arbitrary: t)
  case Nil
  then show ?case by simp
next
  case (Cons m ms)
  from Cons.prems(1) obtain src t1 where src: "new m [] = Inr src"
    and t1: "copyProps t (own src) = Inr t1" and rest: "copyInstances ms t1 = Inr t'"
    by (auto split: sum.splits)
  from Cons.prems(2) src have "excluded_key k \<or> map_of (own src) k = None" by simp
  with t1 have "map_of t1 k = map_of t k"
    by (auto simp: copyProps_map_of)
  moreover have "map_of t' k = map_of t1 k"
    using Cons.IH[OF rest] Cons.prems(2) by simp
  ultimately show ?case by simp
qed

lemma copyInstances_last:
  assumes "copyInstances (pre @ m # post) t = Inr t'"
    and "new m [] = Inr src" and "map_of (own src) k = Some d" and "\<not> excluded_key k"
    and "\<forall>m' src'. m' \<in> set post \<longrightarrow> new m' [] = Inr src' \<longrightarrow> map_of (own src') k = None"
  shows "map_of t' k = Some d"
proof -
  from assms(1) obtain t1 where "copyInstances pre t = Inr t1"
    and t1: "copyInstances (m # post) t1 = Inr t'"
    by (auto simp: copyInstances_append split: sum.splits)
  from t1 assms(2) obtain t2 where t2: "copyProps t1 (own src) = Inr t2"
    and post: "copyInstances post t2 = Inr t'"
    by (auto split: sum.splits)
  have "map_of t2 k = Some d"
    using t2 assms(3,4) by (simp add: copyProps_map_of)
  moreover have "map_of t' k = map_of t2 k"
    using post assms(5) by (intro copyInstances_untouched) auto
  ultimately show ?thesis by simp
qed

lemma copyInstances_keeps:
  "copyInstances ms t = Inr t' \<Longrightarrow> map_of t k \<noteq> None \<Longrightarrow> map_of t' k \<noteq> None"
proof (induction ms arbitrary: t)
  case Nil
  then show ?case by simp
next
  case (Cons m ms)
  from Cons.prems(1) obtain src t1 where "new m [] = Inr src"
    and t1: "copyProps t (own src) = Inr t1" and rest: "copyInstances ms t1 = Inr t'"
    by (auto split: sum.splits)
  from t1 Cons.prems(2) have "map_of t1 k \<noteq> None"
    by (auto simp: copyProps_map_of)
  with Cons.IH[OF rest] show ?case by simp
qed

lemma copyInstances_member:
  assumes "copyInstances ms t = Inr t'" and "m \<in> set ms"
    and "new m [] = Inr src" and "map_of (own src) k \<noteq> None" and "\<not> excluded_key k"
  shows "map_of t' k \<noteq> None"
proof -
  from assms(2) obtain pre post where ms: "ms = pre @ m # post"
    by (auto simp: in_set_conv_decomp)
  with assms(1) obtain t1 where t1: "copyInstances (m # post) t1 = Inr t'"
    by (auto simp: copyInstances_append split: sum.splits)
  with assms(3) obtain t2 where t2: "copyProps t1 (own src) = Inr t2"
    and post: "copyInstances post t2 = Inr t'"
    by (auto split: sum.splits)
  from t2 assms(4,5) have "map_of t2 k \<noteq> None"
    by (auto simp: copyProps_map_of)
  with post show ?thesis by (rule copyInstances_keeps)
qed

subsection \<open>The copies made when the composite is declared\<close>

lemma copyTypes_Cons:
  assumes "copyTypes (v # rest) c = Inr c'"
  obtains pm sm pp' sp' where "provided v = Some (pm, sm)"
    and "copyProps (prototypeOwn c) pm = Inr pp'" and "copyProps (staticOwn c) sm = Inr sp'"
    and "copyTypes rest (Cls (cname c) (superclass c) (superArgs c) (body c) pp' sp') = Inr c'"
  using assms by (auto split: option.splits sum.splits prod.splits)

lemma copyTypes_append:
  "copyTypes (xs @ ys) c =
     (case copyTypes xs c of Inl e \<Rightarrow> Inl e | Inr c' \<Rightarrow> copyTypes ys c')"
  by (induction xs arbitrary: c) (auto split: option.splits sum.splits prod.splits)

lemma copyTypes_frame:
  "copyTypes ms c = Inr c' \<Longrightarrow>
   cname c' = cname c \<and> superclass c' = superclass c \<and> superArgs c' = superArgs c \<and> body c' = body c"
proof (induction ms arbitrary: c)
  case Nil
  then show ?case by simp
next
  case (Cons v ms)
  from Cons.prems obtain pp' sp' where
    "copyTypes ms (Cls (cname c) (superclass c) (superArgs c) (body c) pp' sp') = Inr c'"
    by (rule copyTypes_Cons)
  from Cons.IH[OF this] show ?case by simp
qed


lemma copyTypes_total:
  "\<forall>v\<in>set ms. has_prototype v \<and> string_keyed (prototype_members v) \<and> string_keyed (static_members v) \<Longrightarrow>
   \<exists>c'. copyTypes ms c = Inr c'"
proof (induction ms arbitrary: c)
  case Nil
  then show ?case by simp
next
  case (Cons v ms)
  from Cons.prems have "has_prototype v" by simp
  then obtain pm sm where v: "provided v = Some (pm, sm)"
    by (auto simp: has_prototype_def split: option.splits)
  with Cons.prems have "string_keyed pm" "string_keyed sm"
    by (simp_all add: prototype_members_def static_members_def)
  then obtain pp' sp' where pp': "copyProps (prototypeOwn c) pm = Inr pp'"
    and sp': "copyProps (staticOwn c) sm = Inr sp'"
    using copyProps_Inr_iff by blast
  from Cons.prems have "\<forall>v\<in>set ms. has_prototype v \<and> string_keyed (prototype_members v)
      \<and> string_keyed (static_members v)"
    by simp
  from Cons.IH[OF this] obtain c' where
    "copyTypes ms (Cls (cname c) (superclass c) (superArgs c) (body c) pp' sp') = Inr c'"
    by blast
  with v pp' sp' show ?case by simp
qed

text \<open>One provider's two copies, read on either side: the prototype or the class itself.\<close>

lemma copyTypes_step:
  assumes "provided v = Some (pm, sm)"
    and "copyProps (prototypeOwn c) pm = Inr pp'" and "copyProps (staticOwn c) sm = Inr sp'"
    and "(f = prototypeOwn \<and> g = prototype_members) \<or> (f = staticOwn \<and> g = static_members)"
  shows "map_of (f (Cls n h sa b pp' sp')) k =
     (if \<not> excluded_key k \<and> map_of (g v) k \<noteq> None then map_of (g v) k else map_of (f c) k)"
  using assms by (auto simp: copyProps_map_of prototype_members_def static_members_def)

lemma copyTypes_untouched:
  "copyTypes ms c = Inr c' \<Longrightarrow>
   (f = prototypeOwn \<and> g = prototype_members) \<or> (f = staticOwn \<and> g = static_members) \<Longrightarrow>
   \<forall>v\<in>set ms. excluded_key k \<or> map_of (g v) k = None \<Longrightarrow>
   map_of (f c') k = map_of (f c) k"
proof (induction ms arbitrary: c)
  case Nil
  then show ?case by simp
next
  case (Cons v ms)
  from Cons.prems(1) obtain pm sm pp' sp' where v: "provided v = Some (pm, sm)"
    and pp': "copyProps (prototypeOwn c) pm = Inr pp'" and sp': "copyProps (staticOwn c) sm = Inr sp'"
    and rest: "copyTypes ms (Cls (cname c) (superclass c) (superArgs c) (body c) pp' sp') = Inr c'"
    by (rule copyTypes_Cons)
  from Cons.prems(3) have "excluded_key k \<or> map_of (g v) k = None" by auto
  with copyTypes_step[OF v pp' sp' Cons.prems(2), of "cname c" "superclass c" "superArgs c" "body c" k]
  have "map_of (f (Cls (cname c) (superclass c) (superArgs c) (body c) pp' sp')) k = map_of (f c) k"
    by auto
  moreover have "map_of (f c') k = map_of (f (Cls (cname c) (superclass c) (superArgs c) (body c) pp' sp')) k"
    using Cons.IH[OF rest Cons.prems(2)] Cons.prems(3) by simp
  ultimately show ?case by simp
qed

lemma copyTypes_keeps:
  "copyTypes ms c = Inr c' \<Longrightarrow>
   (f = prototypeOwn \<and> g = prototype_members) \<or> (f = staticOwn \<and> g = static_members) \<Longrightarrow>
   map_of (f c) k \<noteq> None \<Longrightarrow> map_of (f c') k \<noteq> None"
proof (induction ms arbitrary: c)
  case Nil
  then show ?case by simp
next
  case (Cons v ms)
  from Cons.prems(1) obtain pm sm pp' sp' where v: "provided v = Some (pm, sm)"
    and pp': "copyProps (prototypeOwn c) pm = Inr pp'" and sp': "copyProps (staticOwn c) sm = Inr sp'"
    and rest: "copyTypes ms (Cls (cname c) (superclass c) (superArgs c) (body c) pp' sp') = Inr c'"
    by (rule copyTypes_Cons)
  from copyTypes_step[OF v pp' sp' Cons.prems(2), of "cname c" "superclass c" "superArgs c" "body c" k]
    Cons.prems(3)
  have "map_of (f (Cls (cname c) (superclass c) (superArgs c) (body c) pp' sp')) k \<noteq> None"
    by (auto split: if_splits)
  with Cons.IH[OF rest Cons.prems(2)] show ?case by simp
qed

lemma copyTypes_last:
  assumes "copyTypes (pre @ v # post) c = Inr c'"
    and "(f = prototypeOwn \<and> g = prototype_members) \<or> (f = staticOwn \<and> g = static_members)"
    and "map_of (g v) k = Some d" and "\<not> excluded_key k"
    and "\<forall>w\<in>set post. map_of (g w) k = None"
  shows "map_of (f c') k = Some d"
proof -
  from assms(1) obtain c1 where "copyTypes pre c = Inr c1"
    and c1: "copyTypes (v # post) c1 = Inr c'"
    by (auto simp: copyTypes_append split: sum.splits)
  from c1 obtain pm sm pp' sp' where v: "provided v = Some (pm, sm)"
    and pp': "copyProps (prototypeOwn c1) pm = Inr pp'" and sp': "copyProps (staticOwn c1) sm = Inr sp'"
    and post: "copyTypes post (Cls (cname c1) (superclass c1) (superArgs c1) (body c1) pp' sp') = Inr c'"
    by (rule copyTypes_Cons)
  from copyTypes_step[OF v pp' sp' assms(2), of "cname c1" "superclass c1" "superArgs c1" "body c1" k]
    assms(3,4)
  have "map_of (f (Cls (cname c1) (superclass c1) (superArgs c1) (body c1) pp' sp')) k = Some d"
    by simp
  moreover have "map_of (f c') k
      = map_of (f (Cls (cname c1) (superclass c1) (superArgs c1) (body c1) pp' sp')) k"
    using post assms(2) by (rule copyTypes_untouched) (use assms(5) in simp)
  ultimately show ?thesis by simp
qed

lemma copyTypes_member:
  assumes "copyTypes ms c = Inr c'"
    and "(f = prototypeOwn \<and> g = prototype_members) \<or> (f = staticOwn \<and> g = static_members)"
    and "v \<in> set ms" and "map_of (g v) k \<noteq> None" and "\<not> excluded_key k"
  shows "map_of (f c') k \<noteq> None"
proof -
  from assms(3) obtain pre post where "ms = pre @ v # post"
    by (auto simp: in_set_conv_decomp)
  with assms(1) obtain c1 where c1: "copyTypes (v # post) c1 = Inr c'"
    by (auto simp: copyTypes_append split: sum.splits)
  from c1 obtain pm sm pp' sp' where v: "provided v = Some (pm, sm)"
    and pp': "copyProps (prototypeOwn c1) pm = Inr pp'" and sp': "copyProps (staticOwn c1) sm = Inr sp'"
    and post: "copyTypes post (Cls (cname c1) (superclass c1) (superArgs c1) (body c1) pp' sp') = Inr c'"
    by (rule copyTypes_Cons)
  from copyTypes_step[OF v pp' sp' assms(2), of "cname c1" "superclass c1" "superArgs c1" "body c1" k]
    assms(4,5)
  have "map_of (f (Cls (cname c1) (superclass c1) (superArgs c1) (body c1) pp' sp')) k \<noteq> None"
    by simp
  with copyTypes_keeps[OF post assms(2)] show ?thesis by simp
qed


text \<open>The members of a class, as a provider.\<close>

lemma members_VClass:
  "prototype_members (VClass m) = prototypeOwn m" "static_members (VClass m) = staticOwn m"
  "has_prototype (VClass m)"
  by (simp_all add: providers)

subsection \<open>Constructors and instances\<close>

lemma construct_protos: "construct c args this = Inr this' \<Longrightarrow> protos this' = protos this"
  by (induction c args this arbitrary: this' rule: construct.induct) (auto split: sum.splits)

lemma construct_Extends:
  "superclass c = Extends p \<Longrightarrow>
   construct c args this =
     (case construct p (superArgs c args) this of
        Inl e \<Rightarrow> Inl e
      | Inr this' \<Rightarrow> (case body c args this' of Inl e \<Rightarrow> Inl e | Inr q \<Rightarrow> Inr (this'\<lparr>own := q\<rparr>)))"
  by (cases c) (simp cong: sum.case_cong)

lemma construct_NoExtends:
  "superclass c = NoExtends \<Longrightarrow>
   construct c args this = (case body c args this of Inl e \<Rightarrow> Inl e | Inr p \<Rightarrow> Inr (this\<lparr>own := p\<rparr>))"
  by (cases c) simp

lemma construct_ExtendsNull:
  "superclass c = ExtendsNull \<Longrightarrow> construct c args this = Inl (TypeError NotAConstructor)"
  by (cases c) simp

lemma prototype_chain_Extends:
  "superclass c = Extends p \<Longrightarrow> prototype_chain c = prototypeOwn c # prototype_chain p"
  by (cases c) simp

lemma prototype_chain_hd: "\<exists>rest. prototype_chain c = prototypeOwn c # rest"
  by (cases c rule: prototype_chain.cases) auto

lemma own_fresh: "own (fresh c) = []" "(fresh c)\<lparr>own := []\<rparr> = fresh c"
  by (simp_all add: fresh_def)

lemma get_own: "map_of (own ob) k = Some d \<Longrightarrow> get ob k = Some d"
  by (simp add: get_def)

lemma get_prototype:
  assumes "new (VClass c) args = Inr inst" and "map_of (own inst) k = None"
    and "map_of (prototypeOwn c) k = Some d"
  shows "get inst k = Some d"
proof -
  from assms(1) have "protos inst = prototype_chain c"
    by (auto simp: new_def fresh_def dest: construct_protos)
  moreover obtain rest where "prototype_chain c = prototypeOwn c # rest"
    using prototype_chain_hd by blast
  ultimately show ?thesis
    using assms(2,3) by (simp add: get_def)
qed

lemma fresh_constructor_name:
  assumes "declared c"
  shows "this_constructor_name (fresh c) = class_name c"
proof -
  obtain rest where r: "prototype_chain c = prototypeOwn c # rest"
    using prototype_chain_hd by blast
  from assms obtain nm where nm: "map_of (staticOwn c) (Name ''name'') = Some nm"
    and ctor: "map_of (prototypeOwn c) (Name ''constructor'') = Some (Data (ClassRef (cname c) nm))"
    by (auto simp: declared_def split: option.splits)
  show ?thesis
    by (cases nm)
       (simp_all add: this_constructor_name_def get_def fresh_def r nm ctor name_of_def class_name_def)
qed

lemma map_of_defineAll: "map_of (defineAll t ms) = map_of t ++ map_of (rev ms)"
proof (induction ms arbitrary: t)
  case Nil
  show ?case by (simp add: defineAll_def)
next
  case (Cons m ms)
  obtain k d where m: "m = (k, d)" by (cases m)
  have "defineAll t (m # ms) = defineAll (defineProperty t k d) ms"
    by (simp add: defineAll_def m)
  with Cons.IH[of "defineProperty t k d"] show ?case
    by (simp add: m map_of_defineProperty fun_eq_iff map_add_def split: option.splits)
qed

text \<open>
  A class declared with no member keyed \<^verbatim>\<open>constructor\<close> is as its declaration leaves it,
  and its \<^verbatim>\<open>name\<close> property holds the declared name unless a static member is called
  \<^verbatim>\<open>name\<close>.
\<close>

lemma map_of_rev_None: "map_of ps k = None \<Longrightarrow> map_of (rev ps) k = None"
  by (simp add: map_of_eq_None_iff)

lemma declared_mk_class:
  assumes "map_of ms (Name ''constructor'') = None"
  shows "declared (mk_class n h a sa b ms ss)"
  using map_of_rev_None[OF assms]
  by (simp add: declared_def mk_class_def Let_def map_of_defineAll map_add_def split: option.splits)

lemma class_name_mk_class:
  assumes "map_of ss (Name ''name'') = None"
  shows "class_name (mk_class n h a sa b ms ss) = Inr (Str n)"
  using map_of_rev_None[OF assms]
  by (simp add: class_name_def mk_class_def Let_def map_of_defineAll map_add_def)

lemma class_name_static:
  "map_of (rev ss) (Name ''name'') = Some (Data v) \<Longrightarrow> class_name (mk_class n h a sa b ms ss) = Inr v"
  by (auto simp: class_name_def mk_class_def Let_def map_of_defineAll map_add_def split: option.splits)

lemma construct_guarded:
  assumes "has_guard A" and "declared D"
  shows "construct A args (fresh D) =
     (case class_name D of
        Inl e \<Rightarrow> Inl e
      | Inr v \<Rightarrow> if v = Str (cname A) then Inl (Error (cname A @ '' is abstract!'')) else Inr (fresh D))"
proof -
  from assms(1) have "superclass A = NoExtends" "body A = abstract_guard (cname A)"
    by (simp_all add: has_guard_def)
  with assms(2) show ?thesis
    by (simp add: construct_NoExtends abstract_guard_def fresh_constructor_name own_fresh
        split: sum.splits)
qed

lemma new_guarded:
  assumes "guarded g"
  shows "new (VClass g) args = Inl (Error (cname g @ '' is abstract!''))"
proof -
  from assms have "has_guard g" "declared g" "class_name g = Inr (Str (cname g))"
    by (simp_all add: guarded_def)
  then show ?thesis
    by (simp add: new_def construct_guarded)
qed

subsection \<open>What aggregation returns\<close>

text \<open>The class that aggregation declares before it copies.\<close>

lemma aggregation_Inr:
  assumes "aggregation baseClass mixins = Inr composite"
  obtains h where "baseClass = VNull \<and> h = ExtendsNull \<or> (\<exists>B. baseClass = VClass B \<and> h = Extends B)"
    and "copyTypes mixins (mk_class ''base'' h 0 (\<lambda>args. args)
           (\<lambda>args this. copyInstances mixins (own this)) [] []) = Inr composite"
  using assms unfolding aggregation_def class_extends_def
  by (cases baseClass) (auto split: sum.splits)

lemma aggregation_frame:
  assumes "aggregation baseClass mixins = Inr composite"
  shows "cname composite = ''base''" and "superArgs composite = (\<lambda>args. args)"
    and "body composite = (\<lambda>args this. copyInstances mixins (own this))"
    and "baseClass = VClass B \<Longrightarrow> superclass composite = Extends B"
    and "baseClass = VNull \<Longrightarrow> superclass composite = ExtendsNull"
    and "baseClass = VNull \<or> (\<exists>B. baseClass = VClass B)"
proof -
  from assms obtain h where h: "baseClass = VNull \<and> h = ExtendsNull \<or> (\<exists>B. baseClass = VClass B \<and> h = Extends B)"
    and ct: "copyTypes mixins (mk_class ''base'' h 0 (\<lambda>args. args)
           (\<lambda>args this. copyInstances mixins (own this)) [] []) = Inr composite"
    by (rule aggregation_Inr)
  note fr = copyTypes_frame[OF ct]
  show "cname composite = ''base''" using fr by (simp add: mk_class_eval)
  show "superArgs composite = (\<lambda>args. args)" using fr by (simp add: mk_class_eval)
  show "body composite = (\<lambda>args this. copyInstances mixins (own this))" using fr by (simp add: mk_class_eval)
  show "baseClass = VClass B \<Longrightarrow> superclass composite = Extends B" using fr h by (auto simp: mk_class_eval)
  show "baseClass = VNull \<Longrightarrow> superclass composite = ExtendsNull" using fr h by (auto simp: mk_class_eval)
  show "baseClass = VNull \<or> (\<exists>B. baseClass = VClass B)" using h by auto
qed

lemma aggregation_total:
  assumes "extendable baseClass"
    and "\<forall>v\<in>set mixins. has_prototype v \<and> string_keyed (prototype_members v)
           \<and> string_keyed (static_members v)"
  shows "\<exists>composite. aggregation baseClass mixins = Inr composite"
proof -
  from assms(1) obtain base where
    "class_extends ''base'' baseClass 0 (\<lambda>args. args)
       (\<lambda>args this. copyInstances mixins (own this)) [] [] = Inr base"
    by (cases baseClass) (simp_all add: extendable_def class_extends_def)
  moreover from copyTypes_total[OF assms(2)] obtain c' where "copyTypes mixins base = Inr c'" ..
  ultimately show ?thesis by (simp add: aggregation_def)
qed


lemma construct_aggregation:
  assumes "aggregation (VClass B) mixins = Inr composite"
  shows "construct composite args this =
     (case construct B args this of
        Inl e \<Rightarrow> Inl e
      | Inr this' \<Rightarrow>
          (case copyInstances mixins (own this') of Inl e \<Rightarrow> Inl e | Inr q \<Rightarrow> Inr (this'\<lparr>own := q\<rparr>)))"
  using aggregation_frame[OF assms] by (simp add: construct_Extends cong: sum.case_cong)

lemma construct_aggregation_Inr:
  assumes "aggregation baseClass mixins = Inr composite"
    and "construct composite args this = Inr inst"
  obtains q where "copyInstances mixins q = Inr (own inst)"
proof -
  from aggregation_frame(6)[OF assms(1)] show ?thesis
  proof
    assume "baseClass = VNull"
    with aggregation_frame(5)[OF assms(1)] assms(2) show ?thesis
      by (simp add: construct_ExtendsNull)
  next
    assume "\<exists>B. baseClass = VClass B"
    then obtain B where B: "baseClass = VClass B" ..
    from assms(2) construct_aggregation[OF assms(1)[unfolded B], of args this]
    obtain this1 q where "copyInstances mixins (own this1) = Inr q" and "inst = this1\<lparr>own := q\<rparr>"
      by (auto split: sum.splits)
    with that show ?thesis by simp
  qed
qed

lemma new_aggregation_own:
  assumes "aggregation baseClass mixins = Inr composite"
    and "new (VClass composite) args = Inr ob"
  obtains B this1 where "baseClass = VClass B" and "construct B args (fresh composite) = Inr this1"
    and "copyInstances mixins (own this1) = Inr (own ob)"
proof -
  from aggregation_frame(6)[OF assms(1)] show ?thesis
  proof
    assume "baseClass = VNull"
    with aggregation_frame(5)[OF assms(1)] assms(2) show ?thesis
      by (simp add: new_def construct_ExtendsNull)
  next
    assume "\<exists>B. baseClass = VClass B"
    then obtain B where B: "baseClass = VClass B" ..
    from assms(2) construct_aggregation[OF assms(1)[unfolded B], of args "fresh composite"]
    obtain this1 q where "construct B args (fresh composite) = Inr this1"
      and "copyInstances mixins (own this1) = Inr q" and "ob = this1\<lparr>own := q\<rparr>"
      by (auto simp: new_def split: sum.splits)
    with B that show ?thesis by simp
  qed
qed

lemma get_aggregation_instance:
  assumes "aggregation (VClass B) mixins = Inr composite"
    and "new (VClass composite) args = Inr inst"
  shows "get inst k =
     (case map_of (own inst) k of
        Some d \<Rightarrow> Some d
      | None \<Rightarrow> (case map_of (prototypeOwn composite) k of
                   Some d \<Rightarrow> Some d
                 | None \<Rightarrow> lookup_chain (prototype_chain B) k))"
proof -
  from assms(2) have "protos inst = protos (fresh composite)"
    by (auto simp: new_def dest: construct_protos)
  also have "\<dots> = prototypeOwn composite # prototype_chain B"
    using aggregation_frame(4)[OF assms(1)] by (simp add: fresh_def prototype_chain_Extends)
  finally show ?thesis
    by (simp add: get_def split: option.splits)
qed

subsection \<open>Evaluating the classes of the repository\<close>

lemmas eval_copy = copyProps_def getOwnPropertyNames_def getOwnPropertySymbols_def excluded_def
  set_own_def arg_def mk_class_eval no_body_def provided_def

lemmas eval_new = new_def fresh_def

lemmas eval_guard = abstract_guard_def this_constructor_name_def get_def name_of_def

lemma guarded_Machine: "guarded Machine"
  by (simp add: guarded_def has_guard_def declared_def class_name_def Machine_def mk_class_eval)

lemma guarded_Printer: "guarded Printer"
  by (simp add: guarded_def has_guard_def declared_def class_name_def Printer_def mk_class_eval)

lemma guarded_Scanner: "guarded Scanner"
  by (simp add: guarded_def has_guard_def declared_def class_name_def Scanner_def mk_class_eval)

lemma guarded_RelationshipBrowser: "guarded RelationshipBrowser"
  by (simp add: guarded_def has_guard_def declared_def class_name_def RelationshipBrowser_def mk_class_eval)

lemma string_keyed_Journal: "string_keyed (prototypeOwn Journal) \<and> string_keyed (staticOwn Journal)"
  by (simp add: string_keyed_def Journal_def mk_class_eval)

lemma string_keyed_PersistenceManager:
  "string_keyed (prototypeOwn PersistenceManager) \<and> string_keyed (staticOwn PersistenceManager)"
  by (simp add: string_keyed_def PersistenceManager_def mk_class_eval)

lemma string_keyed_Person: "string_keyed (prototypeOwn Person) \<and> string_keyed (staticOwn Person)"
  by (simp add: string_keyed_def Person_def mk_class_eval)

lemma string_keyed_Printer: "string_keyed (prototypeOwn Printer) \<and> string_keyed (staticOwn Printer)"
  by (simp add: string_keyed_def Printer_def mk_class_eval)

lemma string_keyed_Scanner: "string_keyed (prototypeOwn Scanner) \<and> string_keyed (staticOwn Scanner)"
  by (simp add: string_keyed_def Scanner_def mk_class_eval)

lemma string_keyed_Rectangle: "string_keyed (prototypeOwn Rectangle) \<and> string_keyed (staticOwn Rectangle)"
  by (simp add: string_keyed_def Rectangle_def mk_class_eval)

lemma string_keyed_Square: "string_keyed (prototypeOwn Square) \<and> string_keyed (staticOwn Square)"
  by (simp add: string_keyed_def Square_def mk_class_eval)

lemma string_keyed_MultiFunctionPrinter:
  "string_keyed (prototypeOwn MultiFunctionPrinter) \<and> string_keyed (staticOwn MultiFunctionPrinter)"
  by (simp add: string_keyed_def MultiFunctionPrinter_def mk_class_eval)

lemma string_keyed_OldFashionedPrinter:
  "string_keyed (prototypeOwn OldFashionedPrinter) \<and> string_keyed (staticOwn OldFashionedPrinter)"
  by (simp add: string_keyed_def OldFashionedPrinter_def mk_class_eval)

lemma construct_Document: "construct Document args this = Inr this"
  by (simp add: Document_def mk_class_eval no_body_def)

lemma construct_Journal:
  "construct Journal args this = Inr (this\<lparr>own := set_own (own this) ''entries'' ObjectLit\<rparr>)"
  by (simp add: Journal_def mk_class_eval)

lemma construct_Rectangle:
  "construct Rectangle args this =
     Inr (this\<lparr>own := set_own (set_own (own this) ''_width'' (arg args 0)) ''_height'' (arg args 1)\<rparr>)"
  by (simp add: Rectangle_def mk_class_eval)

lemma new_Journal:
  "new (VClass Journal) [] = Inr \<lparr>own = [(Name ''entries'', Data ObjectLit)], protos = prototype_chain Journal\<rparr>"
  by (simp add: Journal_def eval_copy eval_new)

lemma new_Person:
  "new (VClass Person) [] = Inr \<lparr>own = [(Name ''name'', Data Undefined)], protos = prototype_chain Person\<rparr>"
  by (simp add: Person_def eval_copy eval_new)

lemma new_PersistenceManager:
  "new (VClass PersistenceManager) [] = Inr \<lparr>own = [], protos = prototype_chain PersistenceManager\<rparr>"
  by (simp add: PersistenceManager_def eval_copy eval_new)

lemma new_Rectangle:
  "new (VClass Rectangle) [] =
     Inr \<lparr>own = [(Name ''_width'', Data Undefined), (Name ''_height'', Data Undefined)],
          protos = prototype_chain Rectangle\<rparr>"
  by (simp add: new_def construct_Rectangle) (simp add: eval_copy eval_new)

lemma new_Square:
  "new (VClass Square) [] =
     Inr \<lparr>own = [(Name ''_width'', Data Undefined), (Name ''_height'', Data Undefined)],
          protos = prototype_chain Square\<rparr>"
  by (simp add: new_def Square_def mk_class_eval construct_Rectangle) (simp add: eval_copy eval_new)

lemma new_MultiFunctionPrinter:
  "new (VClass MultiFunctionPrinter) [] = Inr \<lparr>own = [], protos = prototype_chain MultiFunctionPrinter\<rparr>"
  by (simp add: new_def fresh_def MultiFunctionPrinter_def Machine_def mk_class_eval no_body_def eval_guard)

lemma new_OldFashionedPrinter:
  "new (VClass OldFashionedPrinter) [] = Inr \<lparr>own = [], protos = prototype_chain OldFashionedPrinter\<rparr>"
  by (simp add: new_def fresh_def OldFashionedPrinter_def Machine_def mk_class_eval no_body_def eval_guard)

lemma agg_Printer_Scanner:
  "aggregation (VClass Printer) [VClass Scanner] =
     Inr (Cls ''base'' (Extends Printer) (\<lambda>args. args)
            (\<lambda>args this. copyInstances [VClass Scanner] (own this))
            [(Name ''constructor'', Data (ClassRef ''base'' (Data (Str ''base'')))), (Name ''scan'', Data (Fn ''Scanner.scan''))]
            [(Name ''length'', Data (Num 0)), (Name ''name'', Data (Str ''base'')),
             (Name ''prototype'', Data (PrototypeOf ''base''))])"
  by (simp add: aggregation_def class_extends_def provided_def Scanner_def eval_copy)

lemma prototype_members_Printer_Scanner:
  "prototype_member (aggregation (VClass Printer) [VClass Scanner]) (Name ''print'')
      = Some (Data (Fn ''Printer.print''))
   \<and> prototype_member (aggregation (VClass Printer) [VClass Scanner]) (Name ''scan'')
      = Some (Data (Fn ''Scanner.scan''))"
  by (simp add: agg_Printer_Scanner prototype_member_def) (simp add: Printer_def mk_class_eval)

subsection \<open>Providers that cannot be constructed\<close>


lemma copyInstances_blocked:
  assumes "v \<in> set ms" and "\<forall>src. new v [] \<noteq> Inr src"
  shows "copyInstances ms t \<noteq> Inr t'"
  using assms(1)
proof (induction ms arbitrary: t)
  case Nil
  then show ?case by simp
next
  case (Cons m ms)
  show ?case
  proof
    assume "copyInstances (m # ms) t = Inr t'"
    then obtain src t1 where src: "new m [] = Inr src" and rest: "copyInstances ms t1 = Inr t'"
      by (auto split: sum.splits)
    from src assms(2) have "v \<noteq> m" by auto
    with Cons.prems have "v \<in> set ms" by simp
    from Cons.IH[OF this] rest show False by simp
  qed
qed

lemma construct_aggregation_blocked:
  assumes "aggregation baseClass mixins = Inr composite"
    and "v \<in> set mixins" and "\<forall>src. new v [] \<noteq> Inr src"
  shows "construct composite args this \<noteq> Inr inst"
proof
  assume "construct composite args this = Inr inst"
  with assms(1) obtain q where "copyInstances mixins q = Inr (own inst)"
    by (rule construct_aggregation_Inr)
  with copyInstances_blocked[OF assms(2,3)] show False by simp
qed

subsection \<open>The loop of Research\<close>



lemma log_children_same:
  "list_all2 same_element es fs \<Longrightarrow> log_children es console = log_children fs console"
proof (induction es fs arbitrary: console rule: list_all2_induct)
  case Nil
  show ?case by simp
next
  case (Cons x xs y ys)
  from Cons.hyps(1) show ?case
    by (cases x; cases y) (simp_all add: same_element_def Cons.IH)
qed

subsection \<open>The union of the members\<close>

text \<open>
  Claim C1 (union property), as amended. On every instance that construction of the
  composite yields, each member outside the Exclusion Set resolves when it is a member a
  provider class declares itself (on its prototype), an own member of a provider's fresh
  instance, a member on the base's prototype chain, or an own member set by the base's
  constructor. For the repository's Printer and Scanner the composite type resolves
  \<^verbatim>\<open>print\<close> to Printer's method and \<^verbatim>\<open>scan\<close> to Scanner's.
\<close>

theorem union_on_constructed_instances:
  assumes "aggregation (VClass B) mixins = Inr composite"
    and "new (VClass composite) args = Inr inst"
    and "\<not> excluded_key k"
  shows "(\<forall>m. VClass m \<in> set mixins \<longrightarrow> map_of (prototypeOwn m) k \<noteq> None \<longrightarrow> get inst k \<noteq> None)
       \<and> (\<forall>m src. m \<in> set mixins \<longrightarrow> new m [] = Inr src \<longrightarrow> map_of (own src) k \<noteq> None \<longrightarrow>
             get inst k \<noteq> None)
       \<and> (lookup_chain (prototype_chain B) k \<noteq> None \<longrightarrow> get inst k \<noteq> None)
       \<and> (\<forall>this1. construct B args (fresh composite) = Inr this1 \<longrightarrow> map_of (own this1) k \<noteq> None \<longrightarrow>
             get inst k \<noteq> None)
       \<and> prototype_member (aggregation (VClass Printer) [VClass Scanner]) (Name ''print'')
           = Some (Data (Fn ''Printer.print''))
       \<and> prototype_member (aggregation (VClass Printer) [VClass Scanner]) (Name ''scan'')
           = Some (Data (Fn ''Scanner.scan''))"
proof -
  note g = get_aggregation_instance[OF assms(1,2), of k]
  from assms(1) obtain h where ct: "copyTypes mixins (mk_class ''base'' h 0 (\<lambda>args. args)
           (\<lambda>args this. copyInstances mixins (own this)) [] []) = Inr composite"
    by (rule aggregation_Inr)
  from assms(1,2) obtain B' this1 where B': "VClass B = VClass B'"
    and this1: "construct B' args (fresh composite) = Inr this1"
    and ci: "copyInstances mixins (own this1) = Inr (own inst)"
    by (rule new_aggregation_own)
  have 1: "get inst k \<noteq> None" if "VClass m \<in> set mixins" "map_of (prototypeOwn m) k \<noteq> None" for m
  proof -
    have "map_of (prototypeOwn composite) k \<noteq> None"
      using copyTypes_member[where f = prototypeOwn and g = prototype_members, OF ct _ that(1), of k]
        that(2) assms(3)
      by (simp add: members_VClass)
    with g show ?thesis by (auto split: option.splits)
  qed
  have 2: "get inst k \<noteq> None"
    if "m \<in> set mixins" "new m [] = Inr src" "map_of (own src) k \<noteq> None" for m src
  proof -
    from ci that assms(3) have "map_of (own inst) k \<noteq> None"
      by (rule copyInstances_member)
    with g show ?thesis by (auto split: option.splits)
  qed
  have 3: "get inst k \<noteq> None" if "lookup_chain (prototype_chain B) k \<noteq> None"
    using g that by (auto split: option.splits)
  have 4: "get inst k \<noteq> None"
    if "construct B args (fresh composite) = Inr this1'" "map_of (own this1') k \<noteq> None" for this1'
  proof -
    from that(1) this1 B' have "this1' = this1" by simp
    with copyInstances_keeps[OF ci, of k] that(2) have "map_of (own inst) k \<noteq> None" by simp
    with g show ?thesis by (auto split: option.splits)
  qed
  from 1 2 3 4 prototype_members_Printer_Scanner show ?thesis by blast
qed

text \<open>
  An instance of \<^verbatim>\<open>aggregation(Journal, PersistenceManager, Rectangle)\<close> reads
  \<^verbatim>\<open>saveToFile\<close>, \<^verbatim>\<open>_width\<close>, \<^verbatim>\<open>addEntry\<close> and \<^verbatim>\<open>entries\<close>.
\<close>

theorem union_on_constructed_instances_witness:
  "\<exists>composite inst src.
      aggregation (VClass Journal) [VClass PersistenceManager, VClass Rectangle] = Inr composite
    \<and> new (VClass composite) [] = Inr inst
    \<and> own inst = [(Name ''entries'', Data ObjectLit), (Name ''_width'', Data Undefined),
                   (Name ''_height'', Data Undefined)]
    \<and> \<not> excluded_key (Name ''saveToFile'') \<and> \<not> excluded_key (Name ''_width'')
    \<and> \<not> excluded_key (Name ''addEntry'') \<and> \<not> excluded_key (Name ''entries'')
    \<and> map_of (prototypeOwn PersistenceManager) (Name ''saveToFile'') \<noteq> None
    \<and> get inst (Name ''saveToFile'') \<noteq> None
    \<and> new (VClass Rectangle) [] = Inr src \<and> map_of (own src) (Name ''_width'') \<noteq> None
    \<and> get inst (Name ''_width'') \<noteq> None
    \<and> lookup_chain (prototype_chain Journal) (Name ''addEntry'') \<noteq> None
    \<and> get inst (Name ''addEntry'') \<noteq> None
    \<and> get inst (Name ''entries'') \<noteq> None"
proof -
  have "\<exists>composite. aggregation (VClass Journal) [VClass PersistenceManager, VClass Rectangle] = Inr composite"
    by (rule aggregation_total)
       (auto simp: providers string_keyed_PersistenceManager string_keyed_Rectangle)
  then obtain composite where
    agg: "aggregation (VClass Journal) [VClass PersistenceManager, VClass Rectangle] = Inr composite" ..
  define inst where "inst = (fresh composite)\<lparr>own := [(Name ''entries'', Data ObjectLit),
      (Name ''_width'', Data Undefined), (Name ''_height'', Data Undefined)]\<rparr>"
  define src where "src = \<lparr>own = [(Name ''_width'', Data Undefined), (Name ''_height'', Data Undefined)],
          protos = prototype_chain Rectangle\<rparr>"
  have b: "construct Journal [] (fresh composite)
      = Inr ((fresh composite)\<lparr>own := [(Name ''entries'', Data ObjectLit)]\<rparr>)"
    by (simp add: construct_Journal fresh_def set_own_def)
  have ci: "copyInstances [VClass PersistenceManager, VClass Rectangle] [(Name ''entries'', Data ObjectLit)]
      = Inr [(Name ''entries'', Data ObjectLit), (Name ''_width'', Data Undefined),
             (Name ''_height'', Data Undefined)]"
    by (simp add: new_PersistenceManager new_Rectangle eval_copy)
  have n: "new (VClass composite) [] = Inr inst"
    by (simp add: new_def construct_aggregation[OF agg] b ci inst_def del: copyInstances.simps)
  have ex: "\<not> excluded_key (Name ''saveToFile'')" "\<not> excluded_key (Name ''_width'')"
    "\<not> excluded_key (Name ''addEntry'')" "\<not> excluded_key (Name ''entries'')"
    by (simp_all add: excluded_key_def excluded_def)
  have h1: "map_of (prototypeOwn PersistenceManager) (Name ''saveToFile'') \<noteq> None"
    by (simp add: PersistenceManager_def mk_class_eval)
  have h2: "new (VClass Rectangle) [] = Inr src" "map_of (own src) (Name ''_width'') \<noteq> None"
    by (simp_all add: new_Rectangle src_def)
  have h3: "lookup_chain (prototype_chain Journal) (Name ''addEntry'') \<noteq> None"
    by (simp add: Journal_def mk_class_eval)
  have h4: "map_of (own ((fresh composite)\<lparr>own := [(Name ''entries'', Data ObjectLit)]\<rparr>)) (Name ''entries'') \<noteq> None"
    by simp
  have 1: "get inst (Name ''saveToFile'') \<noteq> None"
    using union_on_constructed_instances[OF agg n ex(1)] h1 by simp
  have 2: "get inst (Name ''_width'') \<noteq> None"
    using union_on_constructed_instances[OF agg n ex(2)] h2 by simp
  have 3: "get inst (Name ''addEntry'') \<noteq> None"
    using union_on_constructed_instances[OF agg n ex(3)] h3 by simp
  have 4: "get inst (Name ''entries'') \<noteq> None"
    using union_on_constructed_instances[OF agg n ex(4)] b h4 by blast
  have o: "own inst = [(Name ''entries'', Data ObjectLit), (Name ''_width'', Data Undefined),
                   (Name ''_height'', Data Undefined)]"
    by (simp add: inst_def)
  from agg n o ex h1 h2 h3 1 2 3 4 show ?thesis by blast
qed

text \<open>
  The composite of Printer and Scanner has no instance: its constructor throws. And
  \<^verbatim>\<open>fax\<close>, which OldFashionedPrinter inherits from Machine, is not on an instance of
  \<^verbatim>\<open>aggregation(Document, OldFashionedPrinter)\<close>.
\<close>

theorem union_fails_for_guarded_and_for_inherited_members:
  "new_of (aggregation (VClass Printer) [VClass Scanner]) [] = Inl (Error ''Scanner is abstract!'')
   \<and> instance_member (new (VClass OldFashionedPrinter) []) (Name ''fax'') = Some (Data (Fn ''Machine.fax''))
   \<and> \<not> excluded_key (Name ''fax'')
   \<and> new_of (aggregation (VClass Document) [VClass OldFashionedPrinter]) []
       = Inr \<lparr>own = [], protos =
            [[(Name ''constructor'', Data (ClassRef ''base'' (Data (Str ''base'')))),
              (Name ''print'', Data (Fn ''OldFashionedPrinter.print'')),
              (Name ''scan'', Data (Fn ''OldFashionedPrinter.scan''))],
             [(Name ''constructor'', Data (ClassRef ''Document'' (Data (Str ''Document''))))]]\<rparr>
   \<and> instance_member (new_of (aggregation (VClass Document) [VClass OldFashionedPrinter]) [])
        (Name ''fax'') = None"
proof -
  have s: "new (VClass Scanner) [] = Inl (Error ''Scanner is abstract!'')"
    using new_guarded[OF guarded_Scanner, of "[]"] by (simp add: Scanner_def mk_class_eval)
  have 1: "new_of (aggregation (VClass Printer) [VClass Scanner]) [] = Inl (Error ''Scanner is abstract!'')"
    using s by (simp add: agg_Printer_Scanner new_of_def new_def fresh_def)
       (simp add: Printer_def mk_class_eval eval_guard)
  have o: "new (VClass OldFashionedPrinter) [] = Inr (fresh OldFashionedPrinter)"
    by (simp add: new_OldFashionedPrinter fresh_def)
  have 2: "instance_member (new (VClass OldFashionedPrinter) []) (Name ''fax'') = Some (Data (Fn ''Machine.fax''))"
    by (simp add: o instance_member_def get_def fresh_def)
       (simp add: OldFashionedPrinter_def Machine_def mk_class_eval)
  have 3: "\<not> excluded_key (Name ''fax'')"
    by (simp add: excluded_key_def excluded_def)
  have a: "aggregation (VClass Document) [VClass OldFashionedPrinter]
     = Inr (Cls ''base'' (Extends Document) (\<lambda>args. args)
            (\<lambda>args this. copyInstances [VClass OldFashionedPrinter] (own this))
            [(Name ''constructor'', Data (ClassRef ''base'' (Data (Str ''base'')))),
             (Name ''print'', Data (Fn ''OldFashionedPrinter.print'')),
             (Name ''scan'', Data (Fn ''OldFashionedPrinter.scan''))]
            [(Name ''length'', Data (Num 0)), (Name ''name'', Data (Str ''base'')),
             (Name ''prototype'', Data (PrototypeOf ''base''))])"
    by (simp add: aggregation_def class_extends_def OldFashionedPrinter_def eval_copy)
  have ci: "copyInstances [VClass OldFashionedPrinter] [] = Inr []"
    by (simp add: o fresh_def eval_copy)
  have 4: "new_of (aggregation (VClass Document) [VClass OldFashionedPrinter]) []
       = Inr \<lparr>own = [], protos =
            [[(Name ''constructor'', Data (ClassRef ''base'' (Data (Str ''base'')))),
              (Name ''print'', Data (Fn ''OldFashionedPrinter.print'')),
              (Name ''scan'', Data (Fn ''OldFashionedPrinter.scan''))],
             [(Name ''constructor'', Data (ClassRef ''Document'' (Data (Str ''Document''))))]]\<rparr>"
    by (simp add: a new_of_def new_def fresh_def construct_Document ci del: copyInstances.simps)
       (simp add: Document_def mk_class_eval)
  have 5: "instance_member (new_of (aggregation (VClass Document) [VClass OldFashionedPrinter]) [])
        (Name ''fax'') = None"
    by (simp add: 4 instance_member_def get_def)
  from 1 2 3 4 5 show ?thesis by simp
qed

subsection \<open>The order of the providers\<close>

text \<open>
  Claim C2 (last wins), as amended. Last-wins holds level by level. Of the providers that
  define a member outside the Exclusion Set at one level (on their prototype, on
  themselves as static member, or as own property of their fresh instance), the last in
  the list gives the composite its member at that level: on the composite's prototype, on
  the composite itself, among the own properties of a constructed instance. Across levels
  the order of the list plays no part: an instance reads its own property, and the
  prototype-level member only when it has no own property of that name. For two providers
  that define the member at the same level, reversing the list swaps the winner.
\<close>

theorem last_provider_wins_at_each_level:
  assumes "aggregation baseClass (pre @ cj # post) = Inr composite"
    and "\<not> excluded_key k"
  shows "(\<forall>d. map_of (prototype_members cj) k = Some d \<longrightarrow>
            (\<forall>v\<in>set post. map_of (prototype_members v) k = None) \<longrightarrow>
            map_of (prototypeOwn composite) k = Some d \<and>
            (\<forall>args inst. new (VClass composite) args = Inr inst \<longrightarrow> map_of (own inst) k = None \<longrightarrow>
               get inst k = Some d))
       \<and> (\<forall>d. map_of (static_members cj) k = Some d \<longrightarrow>
            (\<forall>v\<in>set post. map_of (static_members v) k = None) \<longrightarrow>
            map_of (staticOwn composite) k = Some d)
       \<and> (\<forall>args this inst src d. construct composite args this = Inr inst \<longrightarrow>
            new cj [] = Inr src \<longrightarrow> map_of (own src) k = Some d \<longrightarrow>
            (\<forall>m src'. m \<in> set post \<longrightarrow> new m [] = Inr src' \<longrightarrow> map_of (own src') k = None) \<longrightarrow>
            map_of (own inst) k = Some d \<and> get inst k = Some d)"
proof -
  from assms(1) obtain h where ct: "copyTypes (pre @ cj # post)
      (mk_class ''base'' h 0 (\<lambda>args. args)
         (\<lambda>args this. copyInstances (pre @ cj # post) (own this)) [] []) = Inr composite"
    by (rule aggregation_Inr)
  have 1: "map_of (prototypeOwn composite) k = Some d \<and>
      (\<forall>args inst. new (VClass composite) args = Inr inst \<longrightarrow> map_of (own inst) k = None \<longrightarrow>
         get inst k = Some d)"
    if "map_of (prototype_members cj) k = Some d"
      "\<forall>v\<in>set post. map_of (prototype_members v) k = None" for d
  proof -
    have "map_of (prototypeOwn composite) k = Some d"
      using copyTypes_last[where f = prototypeOwn and g = prototype_members, OF ct _ that(1) assms(2) that(2)]
      by simp
    then show ?thesis
      using get_prototype by blast
  qed
  have 2: "map_of (staticOwn composite) k = Some d"
    if "map_of (static_members cj) k = Some d"
      "\<forall>v\<in>set post. map_of (static_members v) k = None" for d
    using copyTypes_last[where f = staticOwn and g = static_members, OF ct _ that(1) assms(2) that(2)]
    by simp
  have 3: "map_of (own inst) k = Some d \<and> get inst k = Some d"
    if "construct composite args this = Inr inst" "new cj [] = Inr src"
      "map_of (own src) k = Some d"
      "\<forall>m src'. m \<in> set post \<longrightarrow> new m [] = Inr src' \<longrightarrow> map_of (own src') k = None"
    for args this inst src d
  proof -
    from assms(1) that(1) obtain q where "copyInstances (pre @ cj # post) q = Inr (own inst)"
      by (rule construct_aggregation_Inr)
    then have "map_of (own inst) k = Some d"
      using that(2,3) assms(2) that(4) by (rule copyInstances_last)
    then show ?thesis by (simp add: get_own)
  qed
  from 1 2 3 show ?thesis by blast
qed

text \<open>
  MultiFunctionPrinter and OldFashionedPrinter in both orders (\<^verbatim>\<open>print\<close>), and Journal
  before Rectangle (the static \<^verbatim>\<open>count\<close>, the instance's \<^verbatim>\<open>entries\<close>).
\<close>

theorem last_provider_wins_at_each_level_witness:
  "\<exists>c1 c2 c3 i1 i3.
      aggregation (VClass Document) ([VClass MultiFunctionPrinter] @ VClass OldFashionedPrinter # []) = Inr c1
    \<and> aggregation (VClass Document) ([VClass OldFashionedPrinter] @ VClass MultiFunctionPrinter # []) = Inr c2
    \<and> aggregation (VClass Document) ([] @ VClass Journal # [VClass Rectangle]) = Inr c3
    \<and> \<not> excluded_key (Name ''print'') \<and> \<not> excluded_key (Name ''count'') \<and> \<not> excluded_key (Name ''entries'')
    \<and> map_of (prototype_members (VClass MultiFunctionPrinter)) (Name ''print'')
         = Some (Data (Fn ''MultiFunctionPrinter.print''))
    \<and> map_of (prototype_members (VClass OldFashionedPrinter)) (Name ''print'')
         = Some (Data (Fn ''OldFashionedPrinter.print''))
    \<and> map_of (prototypeOwn c1) (Name ''print'') = Some (Data (Fn ''OldFashionedPrinter.print''))
    \<and> map_of (prototypeOwn c2) (Name ''print'') = Some (Data (Fn ''MultiFunctionPrinter.print''))
    \<and> new (VClass c1) [] = Inr i1 \<and> map_of (own i1) (Name ''print'') = None
    \<and> get i1 (Name ''print'') = Some (Data (Fn ''OldFashionedPrinter.print''))
    \<and> map_of (static_members (VClass Journal)) (Name ''count'') = Some (Data (Num 0))
    \<and> map_of (static_members (VClass Rectangle)) (Name ''count'') = None
    \<and> map_of (staticOwn c3) (Name ''count'') = Some (Data (Num 0))
    \<and> construct c3 [] (fresh c3) = Inr i3
    \<and> own_member (new (VClass Journal) []) (Name ''entries'') = Some (Data ObjectLit)
    \<and> own_member (new (VClass Rectangle) []) (Name ''entries'') = None
    \<and> map_of (own i3) (Name ''entries'') = Some (Data ObjectLit)
    \<and> get i3 (Name ''entries'') = Some (Data ObjectLit)"
proof -
  have "\<exists>c. aggregation (VClass Document) [VClass MultiFunctionPrinter, VClass OldFashionedPrinter] = Inr c"
    by (rule aggregation_total)
       (auto simp: providers string_keyed_MultiFunctionPrinter string_keyed_OldFashionedPrinter)
  then obtain c1 where
    a1: "aggregation (VClass Document) ([VClass MultiFunctionPrinter] @ VClass OldFashionedPrinter # []) = Inr c1"
    by auto
  have "\<exists>c. aggregation (VClass Document) [VClass OldFashionedPrinter, VClass MultiFunctionPrinter] = Inr c"
    by (rule aggregation_total)
       (auto simp: providers string_keyed_MultiFunctionPrinter string_keyed_OldFashionedPrinter)
  then obtain c2 where
    a2: "aggregation (VClass Document) ([VClass OldFashionedPrinter] @ VClass MultiFunctionPrinter # []) = Inr c2"
    by auto
  have "\<exists>c. aggregation (VClass Document) [VClass Journal, VClass Rectangle] = Inr c"
    by (rule aggregation_total)
       (auto simp: providers string_keyed_Journal string_keyed_Rectangle)
  then obtain c3 where
    a3: "aggregation (VClass Document) ([] @ VClass Journal # [VClass Rectangle]) = Inr c3"
    by auto
  have ex: "\<not> excluded_key (Name ''print'')" "\<not> excluded_key (Name ''count'')"
    "\<not> excluded_key (Name ''entries'')"
    by (simp_all add: excluded_key_def excluded_def)
  have pm: "map_of (prototype_members (VClass MultiFunctionPrinter)) (Name ''print'')
      = Some (Data (Fn ''MultiFunctionPrinter.print''))"
    by (simp add: members_VClass MultiFunctionPrinter_def mk_class_eval)
  have po: "map_of (prototype_members (VClass OldFashionedPrinter)) (Name ''print'')
      = Some (Data (Fn ''OldFashionedPrinter.print''))"
    by (simp add: members_VClass OldFashionedPrinter_def mk_class_eval)
  have sj: "map_of (static_members (VClass Journal)) (Name ''count'') = Some (Data (Num 0))"
    by (simp add: members_VClass Journal_def mk_class_eval)
  have sr: "map_of (static_members (VClass Rectangle)) (Name ''count'') = None"
    by (simp add: members_VClass Rectangle_def mk_class_eval)
  define i1 where "i1 = fresh c1"
  have ci1: "copyInstances [VClass MultiFunctionPrinter, VClass OldFashionedPrinter] [] = Inr []"
    by (simp add: new_MultiFunctionPrinter new_OldFashionedPrinter eval_copy)
  have n1: "new (VClass c1) [] = Inr i1"
    by (simp add: new_def construct_aggregation[OF a1] construct_Document i1_def ci1 own_fresh
        del: copyInstances.simps)
  have o1: "map_of (own i1) (Name ''print'') = None"
    by (simp add: i1_def fresh_def)
  define i3 where "i3 = (fresh c3)\<lparr>own := [(Name ''entries'', Data ObjectLit),
      (Name ''_width'', Data Undefined), (Name ''_height'', Data Undefined)]\<rparr>"
  have ci3: "copyInstances [VClass Journal, VClass Rectangle] [] =
      Inr [(Name ''entries'', Data ObjectLit), (Name ''_width'', Data Undefined),
           (Name ''_height'', Data Undefined)]"
    by (simp add: new_Journal new_Rectangle eval_copy)
  have n3: "construct c3 [] (fresh c3) = Inr i3"
    by (simp add: construct_aggregation[OF a3] construct_Document i3_def fresh_def ci3
        del: copyInstances.simps)
  have ej: "own_member (new (VClass Journal) []) (Name ''entries'') = Some (Data ObjectLit)"
    and er: "own_member (new (VClass Rectangle) []) (Name ''entries'') = None"
    by (simp_all add: new_Journal new_Rectangle own_member_def)
  have w1: "map_of (prototypeOwn c1) (Name ''print'') = Some (Data (Fn ''OldFashionedPrinter.print''))"
    and g1: "get i1 (Name ''print'') = Some (Data (Fn ''OldFashionedPrinter.print''))"
    using last_provider_wins_at_each_level[OF a1 ex(1)] po n1 o1 by auto
  have w2: "map_of (prototypeOwn c2) (Name ''print'') = Some (Data (Fn ''MultiFunctionPrinter.print''))"
    using last_provider_wins_at_each_level[OF a2 ex(1)] pm by auto
  have w3: "map_of (staticOwn c3) (Name ''count'') = Some (Data (Num 0))"
    using last_provider_wins_at_each_level[OF a3 ex(2)] sj sr by auto
  have w4: "map_of (own i3) (Name ''entries'') = Some (Data ObjectLit)"
    and g4: "get i3 (Name ''entries'') = Some (Data ObjectLit)"
    using last_provider_wins_at_each_level[OF a3 ex(3)] n3 new_Journal new_Rectangle
    by (auto simp: i3_def get_def)
  from a1 a2 a3 ex pm po w1 w2 n1 o1 g1 sj sr w3 n3 ej er w4 g4 show ?thesis
    by blast
qed

text \<open>
  Two providers that both define \<^verbatim>\<open>report\<close>: the constructor of the first assigns
  \<^verbatim>\<open>this.report\<close>, the second declares the method \<^verbatim>\<open>report() {}\<close>. With the providers
  in the order first, second, an instance of the composite reads the first provider's
  \<^verbatim>\<open>report\<close>, while the composite's prototype holds the second's; with the list reversed
  the instance still reads the first provider's.
\<close>

theorem own_member_shadows_a_later_provider:
  "\<not> excluded_key (Name ''report'')
   \<and> own_member
        (new (VClass (mk_class ''A'' NoExtends 0 (\<lambda>args. args)
           (\<lambda>args this. Inr (set_own (own this) ''report'' (Fn ''A.report''))) [] [])) [])
        (Name ''report'') = Some (Data (Fn ''A.report''))
   \<and> instance_member
        (new (VClass (mk_class ''B'' NoExtends 0 (\<lambda>args. args) no_body
           [(Name ''report'', Data (Fn ''B.report''))] [])) [])
        (Name ''report'') = Some (Data (Fn ''B.report''))
   \<and> instance_member
        (new_of (aggregation (VClass Document)
           [VClass (mk_class ''A'' NoExtends 0 (\<lambda>args. args)
              (\<lambda>args this. Inr (set_own (own this) ''report'' (Fn ''A.report''))) [] []),
            VClass (mk_class ''B'' NoExtends 0 (\<lambda>args. args) no_body
              [(Name ''report'', Data (Fn ''B.report''))] [])]) [])
        (Name ''report'') = Some (Data (Fn ''A.report''))
   \<and> prototype_member
        (aggregation (VClass Document)
           [VClass (mk_class ''A'' NoExtends 0 (\<lambda>args. args)
              (\<lambda>args this. Inr (set_own (own this) ''report'' (Fn ''A.report''))) [] []),
            VClass (mk_class ''B'' NoExtends 0 (\<lambda>args. args) no_body
              [(Name ''report'', Data (Fn ''B.report''))] [])])
        (Name ''report'') = Some (Data (Fn ''B.report''))
   \<and> instance_member
        (new_of (aggregation (VClass Document)
           [VClass (mk_class ''B'' NoExtends 0 (\<lambda>args. args) no_body
              [(Name ''report'', Data (Fn ''B.report''))] []),
            VClass (mk_class ''A'' NoExtends 0 (\<lambda>args. args)
              (\<lambda>args this. Inr (set_own (own this) ''report'' (Fn ''A.report''))) [] [])]) [])
        (Name ''report'') = Some (Data (Fn ''A.report''))"
  by (simp add: excluded_key_def own_member_def instance_member_def prototype_member_def
      new_of_def new_def fresh_def get_def aggregation_def class_extends_def Document_def eval_copy)

subsection \<open>Base members and provider members\<close>

text \<open>
  Claim C3 (base precedence), as amended. The per-provider copy overwrites what the
  base's construction put on the instance: after construction, an own member outside the
  Exclusion Set is that of the last provider whose fresh instance has an own member of
  that name, and it is the base's version only when no provider's fresh instance has one
  (or the name is in the Exclusion Set).
\<close>

theorem provider_copy_overwrites_base_members:
  assumes "aggregation (VClass B) mixins = Inr composite"
    and "construct B args this = Inr this1"
    and "construct composite args this = Inr inst"
  shows "(\<forall>pre m post src d. mixins = pre @ m # post \<longrightarrow> new m [] = Inr src \<longrightarrow>
            map_of (own src) k = Some d \<longrightarrow> \<not> excluded_key k \<longrightarrow>
            (\<forall>m' src'. m' \<in> set post \<longrightarrow> new m' [] = Inr src' \<longrightarrow> map_of (own src') k = None) \<longrightarrow>
            map_of (own inst) k = Some d)
       \<and> ((\<forall>m src. m \<in> set mixins \<longrightarrow> new m [] = Inr src \<longrightarrow>
               excluded_key k \<or> map_of (own src) k = None) \<longrightarrow>
            map_of (own inst) k = map_of (own this1) k)"
proof -
  from assms construct_aggregation[OF assms(1), of args this]
  obtain q where q: "copyInstances mixins (own this1) = Inr q" and inst: "inst = this1\<lparr>own := q\<rparr>"
    by (auto split: sum.splits)
  have 1: "map_of (own inst) k = Some d"
    if "mixins = pre @ m # post" "new m [] = Inr src" "map_of (own src) k = Some d"
      "\<not> excluded_key k"
      "\<forall>m' src'. m' \<in> set post \<longrightarrow> new m' [] = Inr src' \<longrightarrow> map_of (own src') k = None"
    for pre m post src d
    using copyInstances_last[OF q[unfolded that(1)] that(2,3,4,5)] inst by simp
  have 2: "map_of (own inst) k = map_of (own this1) k"
    if "\<forall>m src. m \<in> set mixins \<longrightarrow> new m [] = Inr src \<longrightarrow> excluded_key k \<or> map_of (own src) k = None"
    using copyInstances_untouched[OF q that] inst by simp
  from 1 2 show ?thesis by blast
qed

text \<open>\<^verbatim>\<open>new (aggregation(Rectangle, Square))(2, 3)\<close>: the width 2 that Rectangle set is overwritten.\<close>

theorem provider_copy_overwrites_base_members_witness:
  "\<exists>composite this1 inst.
      aggregation (VClass Rectangle) [VClass Square] = Inr composite
    \<and> construct Rectangle [Num 2, Num 3] (fresh composite) = Inr this1
    \<and> map_of (own this1) (Name ''_width'') = Some (Data (Num 2))
    \<and> construct composite [Num 2, Num 3] (fresh composite) = Inr inst
    \<and> [VClass Square] = [] @ VClass Square # []
    \<and> own_member (new (VClass Square) []) (Name ''_width'') = Some (Data Undefined)
    \<and> \<not> excluded_key (Name ''_width'')
    \<and> map_of (own inst) (Name ''_width'') = Some (Data Undefined)
    \<and> own_member (new (VClass Square) []) (Name ''entries'') = None
    \<and> map_of (own inst) (Name ''entries'') = map_of (own this1) (Name ''entries'')"
proof -
  have "\<exists>composite. aggregation (VClass Rectangle) [VClass Square] = Inr composite"
    by (rule aggregation_total)
       (auto simp: providers string_keyed_Square)
  then obtain composite where agg: "aggregation (VClass Rectangle) [VClass Square] = Inr composite" ..
  define this1 where "this1 = (fresh composite)\<lparr>own := [(Name ''_width'', Data (Num 2)),
      (Name ''_height'', Data (Num 3))]\<rparr>"
  define inst where "inst = (fresh composite)\<lparr>own := [(Name ''_width'', Data Undefined),
      (Name ''_height'', Data Undefined)]\<rparr>"
  have b: "construct Rectangle [Num 2, Num 3] (fresh composite) = Inr this1"
    by (simp add: construct_Rectangle this1_def fresh_def set_own_def arg_def)
  have ci: "copyInstances [VClass Square] [(Name ''_width'', Data (Num 2)), (Name ''_height'', Data (Num 3))]
      = Inr [(Name ''_width'', Data Undefined), (Name ''_height'', Data Undefined)]"
    by (simp add: new_Square eval_copy)
  have c: "construct composite [Num 2, Num 3] (fresh composite) = Inr inst"
    by (simp add: construct_aggregation[OF agg] b this1_def ci inst_def del: copyInstances.simps)
  have nex: "\<not> excluded_key (Name ''_width'')"
    by (simp add: excluded_key_def excluded_def)
  have w: "map_of (own \<lparr>own = [(Name ''_width'', Data Undefined), (Name ''_height'', Data Undefined)],
          protos = prototype_chain Square\<rparr>) (Name ''_width'') = Some (Data Undefined)"
    by simp
  have 1: "map_of (own inst) (Name ''_width'') = Some (Data Undefined)"
    using provider_copy_overwrites_base_members[OF agg b c, of "Name ''_width''"] new_Square w nex
    by (auto simp: Cons_eq_append_conv)
  have 2: "map_of (own inst) (Name ''entries'') = map_of (own this1) (Name ''entries'')"
    using provider_copy_overwrites_base_members[OF agg b c, of "Name ''entries''"] new_Square
    by auto
  have 3: "map_of (own this1) (Name ''_width'') = Some (Data (Num 2))"
    by (simp add: this1_def)
  have 4: "own_member (new (VClass Square) []) (Name ''_width'') = Some (Data Undefined)"
    "own_member (new (VClass Square) []) (Name ''entries'') = None"
    by (simp_all add: new_Square own_member_def)
  from agg b c nex 1 2 3 4 show ?thesis by auto
qed

text \<open>With no provider the instance keeps the width 2; with Square as provider it is undefined.\<close>

theorem base_member_is_overwritten:
  "own_member (new_of (aggregation (VClass Rectangle) []) [Num 2, Num 3]) (Name ''_width'')
      = Some (Data (Num 2))
   \<and> own_member (new_of (aggregation (VClass Rectangle) [VClass Square]) [Num 2, Num 3]) (Name ''_width'')
      = Some (Data Undefined)"
proof -
  have 1: "new_of (aggregation (VClass Rectangle) []) [Num 2, Num 3]
      = Inr \<lparr>own = [(Name ''_width'', Data (Num 2)), (Name ''_height'', Data (Num 3))],
             protos = [(Name ''constructor'', Data (ClassRef ''base'' (Data (Str ''base''))))] # prototype_chain Rectangle\<rparr>"
    by (simp add: aggregation_def class_extends_def mk_class_eval new_of_def new_def fresh_def
        construct_Rectangle set_own_def arg_def)
  have "\<exists>composite. aggregation (VClass Rectangle) [VClass Square] = Inr composite"
    by (rule aggregation_total)
       (auto simp: providers string_keyed_Square)
  then obtain composite where agg: "aggregation (VClass Rectangle) [VClass Square] = Inr composite" ..
  have b: "construct Rectangle [Num 2, Num 3] (fresh composite)
      = Inr ((fresh composite)\<lparr>own := [(Name ''_width'', Data (Num 2)), (Name ''_height'', Data (Num 3))]\<rparr>)"
    by (simp add: construct_Rectangle fresh_def set_own_def arg_def)
  have ci: "copyInstances [VClass Square] [(Name ''_width'', Data (Num 2)), (Name ''_height'', Data (Num 3))]
      = Inr [(Name ''_width'', Data Undefined), (Name ''_height'', Data Undefined)]"
    by (simp add: new_Square eval_copy)
  have 2: "new_of (aggregation (VClass Rectangle) [VClass Square]) [Num 2, Num 3]
      = Inr ((fresh composite)\<lparr>own := [(Name ''_width'', Data Undefined), (Name ''_height'', Data Undefined)]\<rparr>)"
    by (simp add: agg new_of_def new_def construct_aggregation[OF agg] b ci del: copyInstances.simps)
  show ?thesis
    by (simp add: 1 2 own_member_def)
qed

subsection \<open>The abstract guard\<close>

text \<open>
  Claim C4 (abstract guard), as amended. The guard compares a name, not an identity: run
  on the object under construction for a class \<open>D\<close> that is the class \<open>A\<close> with the guard
  or one of its descendants, the constructor of \<open>A\<close> throws \<^verbatim>\<open>A is abstract!\<close> exactly
  when the \<^verbatim>\<open>name\<close> property of \<open>D\<close> holds the string \<^verbatim>\<open>A\<close>, and otherwise passes and
  leaves the object as it was. That property holds the name \<open>D\<close> is declared under unless
  \<open>D\<close> declares a static member called \<^verbatim>\<open>name\<close>. So the guard throws for \<open>A\<close> itself
  and passes for every descendant declared under another name, as long as neither
  declares such a static member.
\<close>

theorem guard_decides_by_name:
  assumes "has_guard A" and "declared D" and "D = A \<or> A \<in> set (ancestors D)"
    and "class_name D = Inr v"
  shows "construct A args (fresh D) =
           (if v = Str (cname A) then Inl (Error (cname A @ '' is abstract!'')) else Inr (fresh D))
       \<and> (\<forall>n h a sa b ms ss. D = mk_class n h a sa b ms ss \<longrightarrow> map_of ss (Name ''name'') = None \<longrightarrow>
             v = Str n)"
proof -
  have "v = Str n" if "D = mk_class n h a sa b ms ss" "map_of ss (Name ''name'') = None"
    for n h a sa b ms ss
    using class_name_mk_class[OF that(2), of n h a sa b ms] assms(4) that(1) by simp
  with construct_guarded[OF assms(1,2), of args] assms(4) show ?thesis
    by simp
qed

text \<open>
  Machine and MultiFunctionPrinter, RelationshipBrowser and Relationships: the guard passes
  for the subclass; it throws for Machine.
\<close>

theorem guard_decides_by_name_witness:
  "has_guard Machine \<and> declared MultiFunctionPrinter \<and> Machine \<in> set (ancestors MultiFunctionPrinter)
   \<and> class_name MultiFunctionPrinter = Inr (Str ''MultiFunctionPrinter'')
   \<and> construct Machine [] (fresh MultiFunctionPrinter) = Inr (fresh MultiFunctionPrinter)
   \<and> declared Machine \<and> class_name Machine = Inr (Str ''Machine'')
   \<and> construct Machine [] (fresh Machine) = Inl (Error ''Machine is abstract!'')
   \<and> has_guard RelationshipBrowser \<and> declared Relationships
   \<and> RelationshipBrowser \<in> set (ancestors Relationships)
   \<and> class_name Relationships = Inr (Str ''Relationships'')
   \<and> construct RelationshipBrowser [] (fresh Relationships) = Inr (fresh Relationships)"
proof -
  have g': "has_guard RelationshipBrowser"
    using guarded_RelationshipBrowser by (simp add: guarded_def)
  have r: "declared Relationships"
    by (simp add: Relationships_def declared_mk_class)
  have a': "RelationshipBrowser \<in> set (ancestors Relationships)"
    by (simp add: Relationships_def mk_class_eval)
  have n': "class_name Relationships = Inr (Str ''Relationships'')"
    by (simp add: Relationships_def class_name_mk_class)
  have c': "cname RelationshipBrowser = ''RelationshipBrowser''"
    by (simp add: RelationshipBrowser_def mk_class_eval)
  from guard_decides_by_name[OF g' r _ n', of "[]"] a' c'
  have 3: "construct RelationshipBrowser [] (fresh Relationships) = Inr (fresh Relationships)"
    by simp
  have g: "has_guard Machine" and d': "declared Machine"
    and m': "class_name Machine = Inr (Str ''Machine'')"
    using guarded_Machine by (simp_all add: guarded_def Machine_def mk_class_eval)
  have d: "declared MultiFunctionPrinter"
    by (simp add: MultiFunctionPrinter_def declared_mk_class)
  have a: "Machine \<in> set (ancestors MultiFunctionPrinter)"
    by (simp add: MultiFunctionPrinter_def mk_class_eval)
  have n: "class_name MultiFunctionPrinter = Inr (Str ''MultiFunctionPrinter'')"
    by (simp add: MultiFunctionPrinter_def class_name_mk_class)
  have c: "cname Machine = ''Machine''"
    by (simp add: Machine_def mk_class_eval)
  from guard_decides_by_name[OF g d _ n, of "[]"] a c
  have 1: "construct Machine [] (fresh MultiFunctionPrinter) = Inr (fresh MultiFunctionPrinter)"
    by simp
  from guard_decides_by_name[OF g d' _ m', of "[]"] c
  have 2: "construct Machine [] (fresh Machine) = Inl (Error ''Machine is abstract!'')"
    by simp
  from g d a n 1 d' m' 2 g' r a' n' 3 show ?thesis by simp
qed

text \<open>
  The inherited guard throws for two strict descendants of Machine: a class declared
  under the name Machine, and a class \<^verbatim>\<open>Copier\<close> with \<^verbatim>\<open>static name = 'Machine'\<close>. And
  a class \<^verbatim>\<open>Shape\<close> with the guard and \<^verbatim>\<open>static name = 'Form'\<close> is constructed directly
  without the guard throwing.
\<close>

theorem guard_follows_the_name_property:
  "Machine \<in> set (ancestors (mk_class ''Machine'' (Extends Machine) 0 (\<lambda>args. args) no_body [] []))
   \<and> mk_class ''Machine'' (Extends Machine) 0 (\<lambda>args. args) no_body [] [] \<noteq> Machine
   \<and> new (VClass (mk_class ''Machine'' (Extends Machine) 0 (\<lambda>args. args) no_body [] [])) []
       = Inl (Error ''Machine is abstract!'')
   \<and> Machine \<in> set (ancestors (mk_class ''Copier'' (Extends Machine) 0 (\<lambda>args. args) no_body []
         [(Name ''name'', Data (Str ''Machine''))]))
   \<and> new (VClass (mk_class ''Copier'' (Extends Machine) 0 (\<lambda>args. args) no_body []
         [(Name ''name'', Data (Str ''Machine''))])) []
       = Inl (Error ''Machine is abstract!'')
   \<and> has_guard (mk_class ''Shape'' NoExtends 0 (\<lambda>args. args) (abstract_guard ''Shape'') []
         [(Name ''name'', Data (Str ''Form''))])
   \<and> new (VClass (mk_class ''Shape'' NoExtends 0 (\<lambda>args. args) (abstract_guard ''Shape'') []
         [(Name ''name'', Data (Str ''Form''))])) []
       = Inr (fresh (mk_class ''Shape'' NoExtends 0 (\<lambda>args. args) (abstract_guard ''Shape'') []
         [(Name ''name'', Data (Str ''Form''))]))"
  by (simp add: mk_class_eval Machine_def new_def fresh_def has_guard_def no_body_def eval_guard)

subsection \<open>When aggregation throws\<close>




subsection \<open>The Exclusion Set\<close>

text \<open>
  Claim C6 (exclusion property). For a name of the Exclusion Set, the composite's
  prototype, the composite type and a constructed instance hold after the copy what they
  held before it: the prototype's \<^verbatim>\<open>constructor\<close> is the composite, the type's
  \<^verbatim>\<open>length\<close>, \<^verbatim>\<open>name\<close> and \<^verbatim>\<open>prototype\<close> are its own, the instance keeps what the
  base's constructor set. The copy behaves, errors included, as if the provider did not
  have the excluded members.
\<close>

theorem exclusion_property:
  assumes "aggregation baseClass mixins = Inr composite" and "excluded n"
  shows "map_of (prototypeOwn composite) (Name n)
           = map_of [(Name ''constructor'', Data (ClassRef ''base'' (Data (Str ''base''))))] (Name n)
       \<and> map_of (staticOwn composite) (Name n)
           = map_of [(Name ''length'', Data (Num 0)), (Name ''name'', Data (Str ''base'')),
                     (Name ''prototype'', Data (PrototypeOf ''base''))] (Name n)
       \<and> (\<forall>B args this this1 inst. baseClass = VClass B \<longrightarrow> construct B args this = Inr this1 \<longrightarrow>
             construct composite args this = Inr inst \<longrightarrow>
             map_of (own inst) (Name n) = map_of (own this1) (Name n))
       \<and> (\<forall>target source. copyProps target source
             = copyProps target (filter (\<lambda>p. \<not> excluded_key (fst p)) source))"
proof -
  from assms(2) have k: "excluded_key (Name n)" by (simp add: excluded_key_def)
  from assms(1) obtain h where ct: "copyTypes mixins (mk_class ''base'' h 0 (\<lambda>args. args)
           (\<lambda>args this. copyInstances mixins (own this)) [] []) = Inr composite"
    by (rule aggregation_Inr)
  have 1: "map_of (prototypeOwn composite) (Name n)
           = map_of [(Name ''constructor'', Data (ClassRef ''base'' (Data (Str ''base''))))] (Name n)"
    using copyTypes_untouched[where f = prototypeOwn and g = prototype_members, OF ct, of "Name n"] k
    by (simp add: mk_class_eval)
  have 2: "map_of (staticOwn composite) (Name n)
           = map_of [(Name ''length'', Data (Num 0)), (Name ''name'', Data (Str ''base'')),
                     (Name ''prototype'', Data (PrototypeOf ''base''))] (Name n)"
    using copyTypes_untouched[where f = staticOwn and g = static_members, OF ct, of "Name n"] k
    by (simp add: mk_class_eval)
  have 3: "map_of (own inst) (Name n) = map_of (own this1) (Name n)"
    if "baseClass = VClass B" "construct B args this = Inr this1"
       "construct composite args this = Inr inst" for B args this this1 inst
  proof -
    from that construct_aggregation[OF assms(1)[unfolded that(1)], of args this]
    obtain q where q: "copyInstances mixins (own this1) = Inr q" and inst: "inst = this1\<lparr>own := q\<rparr>"
      by (auto split: sum.splits)
    from copyInstances_untouched[OF q, of "Name n"] k inst show ?thesis by simp
  qed
  from 1 2 3 copyProps_skips show ?thesis by blast
qed

text \<open>
  Journal and Person as providers of a Document: the \<^verbatim>\<open>name\<close> that Person's constructor
  sets is not copied, and the composite keeps its own \<^verbatim>\<open>name\<close>.
\<close>

theorem exclusion_property_witness:
  "\<exists>composite inst.
      aggregation (VClass Document) [VClass Journal, VClass Person] = Inr composite
    \<and> excluded ''name''
    \<and> construct Document [] (fresh composite) = Inr (fresh composite)
    \<and> construct composite [] (fresh composite) = Inr inst
    \<and> map_of (own inst) (Name ''name'') = map_of (own (fresh composite)) (Name ''name'')
    \<and> map_of (own inst) (Name ''name'') = None
    \<and> map_of (own inst) (Name ''entries'') = Some (Data ObjectLit)
    \<and> map_of (staticOwn composite) (Name ''name'') = Some (Data (Str ''base''))
    \<and> map_of (prototypeOwn composite) (Name ''name'') = None"
proof -
  have "\<exists>composite. aggregation (VClass Document) [VClass Journal, VClass Person] = Inr composite"
    by (rule aggregation_total)
       (auto simp: providers string_keyed_Journal string_keyed_Person)
  then obtain composite where
    agg: "aggregation (VClass Document) [VClass Journal, VClass Person] = Inr composite" ..
  have ex: "excluded ''name''" by (simp add: excluded_def)
  have ci: "copyInstances [VClass Journal, VClass Person] [] = Inr [(Name ''entries'', Data ObjectLit)]"
    by (simp add: new_Journal new_Person eval_copy)
  define inst where "inst = (fresh composite)\<lparr>own := [(Name ''entries'', Data ObjectLit)]\<rparr>"
  have c: "construct composite [] (fresh composite) = Inr inst"
    using ci by (simp add: construct_aggregation[OF agg] construct_Document inst_def fresh_def)
  from exclusion_property[OF agg ex] construct_Document[of "[]" "fresh composite"] c
  have "map_of (own inst) (Name ''name'') = map_of (own (fresh composite)) (Name ''name'')"
    and "map_of (staticOwn composite) (Name ''name'') = Some (Data (Str ''base''))"
    and "map_of (prototypeOwn composite) (Name ''name'') = None"
    by auto
  moreover have "map_of (own inst) (Name ''name'') = None"
    and "map_of (own inst) (Name ''entries'') = Some (Data ObjectLit)"
    by (simp_all add: inst_def)
  ultimately show ?thesis
    using agg ex c construct_Document[of "[]" "fresh composite"] by blast
qed

subsection \<open>Two instances of one composite\<close>



subsection \<open>Research and its provider\<close>




text \<open>
  Claim C9 (gateway substitutability). Two providers of \<^verbatim>\<open>findAllChildrenOf\<close> whose
  answers to every query hold the same data (both throw the same error, both return
  nothing to iterate, or both return lists that agree place by place: persons of the same
  name, which need not be the same objects) make \<^verbatim>\<open>Research\<close> behave identically, with
  the same outcome and the same console.
\<close>

theorem gateway_substitutability:
  assumes "findAllChildrenOf_of P1 = Some f1" and "findAllChildrenOf_of P2 = Some f2"
    and "\<forall>q. same_answer (f1 q) (f2 q)"
  shows "Research P1 console = Research P2 console"
proof -
  from assms(3) have s: "same_answer (f1 ''John'') (f2 ''John'')" ..
  show ?thesis
  proof (cases "f1 ''John''")
    case (Raises e)
    with s have "f2 ''John'' = Raises e"
      by (cases "f2 ''John''") (simp_all add: same_answer_def)
    with Raises assms(1,2) show ?thesis by (simp add: Research_def)
  next
    case NoAnswer
    with s have "f2 ''John'' = NoAnswer"
      by (cases "f2 ''John''") (simp_all add: same_answer_def)
    with NoAnswer assms(1,2) show ?thesis by (simp add: Research_def)
  next
    case (Items es)
    with s obtain fs where fs: "f2 ''John'' = Items fs" and "list_all2 same_element es fs"
      by (cases "f2 ''John''") (simp_all add: same_answer_def)
    then have "log_children es console = log_children fs console"
      by (simp add: log_children_same)
    with Items fs assms(1,2) show ?thesis by (simp add: Research_def)
  qed
qed

text \<open>
  The relationships of the example, and a provider of another kind that answers from a
  table with person objects of its own: the answers differ, as the persons are not the
  same objects, and \<^verbatim>\<open>Research\<close> writes the same two lines.
\<close>

theorem gateway_substitutability_witness:
  "findAllChildrenOf_of (relationships rels) = Some (\<lambda>n. Items (map APerson (findAllChildrenOf rels n)))
   \<and> findAllChildrenOf_of
        (Browser (Some (\<lambda>n. Items (if n = ''John''
           then [APerson \<lparr>ident = 7, name = ''Chris''\<rparr>, APerson \<lparr>ident = 8, name = ''Matt''\<rparr>] else []))))
       = Some (\<lambda>n. Items (if n = ''John''
           then [APerson \<lparr>ident = 7, name = ''Chris''\<rparr>, APerson \<lparr>ident = 8, name = ''Matt''\<rparr>] else []))
   \<and> (\<forall>q. same_answer (Items (map APerson (findAllChildrenOf rels q)))
                        (Items (if q = ''John''
           then [APerson \<lparr>ident = 7, name = ''Chris''\<rparr>, APerson \<lparr>ident = 8, name = ''Matt''\<rparr>] else [])))
   \<and> Items (map APerson (findAllChildrenOf rels ''John''))
       \<noteq> Items [APerson \<lparr>ident = 7, name = ''Chris''\<rparr>, APerson \<lparr>ident = 8, name = ''Matt''\<rparr>]
   \<and> Research (relationships rels) []
       = Research (Browser (Some (\<lambda>n. Items (if n = ''John''
           then [APerson \<lparr>ident = 7, name = ''Chris''\<rparr>, APerson \<lparr>ident = 8, name = ''Matt''\<rparr>] else [])))) []
   \<and> Research (relationships rels) []
       = (Inr (), [''John has a child named Chris'', ''John has a child named Matt''])"
proof -
  have 1: "findAllChildrenOf_of (relationships rels) = Some (\<lambda>n. Items (map APerson (findAllChildrenOf rels n)))"
    by (simp add: relationships_def)
  have 2: "findAllChildrenOf_of
        (Browser (Some (\<lambda>n. Items (if n = ''John''
           then [APerson \<lparr>ident = 7, name = ''Chris''\<rparr>, APerson \<lparr>ident = 8, name = ''Matt''\<rparr>] else []))))
       = Some (\<lambda>n. Items (if n = ''John''
           then [APerson \<lparr>ident = 7, name = ''Chris''\<rparr>, APerson \<lparr>ident = 8, name = ''Matt''\<rparr>] else []))"
    by simp
  have 3: "\<forall>q. same_answer (Items (map APerson (findAllChildrenOf rels q)))
                        (Items (if q = ''John''
           then [APerson \<lparr>ident = 7, name = ''Chris''\<rparr>, APerson \<lparr>ident = 8, name = ''Matt''\<rparr>] else []))"
    by (auto simp: same_answer_def same_element_def findAllChildrenOf_def rels_def addParentAndChild_def
        parent_def child1_def child2_def)
  have 4: "Research (relationships rels) []
       = (Inr (), [''John has a child named Chris'', ''John has a child named Matt''])"
    by (simp add: Research_def relationships_def findAllChildrenOf_def rels_def
        addParentAndChild_def parent_def child1_def child2_def)
  have 5: "Items (map APerson (findAllChildrenOf rels ''John''))
       \<noteq> Items [APerson \<lparr>ident = 7, name = ''Chris''\<rparr>, APerson \<lparr>ident = 8, name = ''Matt''\<rparr>]"
    by (simp add: findAllChildrenOf_def rels_def addParentAndChild_def parent_def child1_def child2_def)
  from gateway_substitutability[OF 1 2 3, of "[]"] 1 2 3 4 5 show ?thesis by simp
qed

subsection \<open>A guarded provider\<close>

text \<open>
  Claim C10 (a guarded provider blocks construction), as amended. When the provider list
  of a composite contains an abstract class of the repository's kind (a base class whose
  constructor is the guard on the name it is declared under, and which declares no static
  member called \<^verbatim>\<open>name\<close>), running the composite's constructor on any object under
  construction never yields an instance; when the base's constructor and the copies of
  the providers listed before that class go through, what is thrown is that guard's
  error, as for \<^verbatim>\<open>new Photocopier()\<close>, which throws \<^verbatim>\<open>Scanner is abstract!\<close>.
\<close>

theorem guarded_provider_blocks_construction:
  assumes "aggregation baseClass (pre @ VClass g # post) = Inr composite" and "guarded g"
  shows "(\<forall>inst. construct composite args this \<noteq> Inr inst) \<and>
         (\<forall>B this1 p. baseClass = VClass B \<longrightarrow> construct B args this = Inr this1 \<longrightarrow>
             copyInstances pre (own this1) = Inr p \<longrightarrow>
             construct composite args this = Inl (Error (cname g @ '' is abstract!'')))"
proof -
  have g: "new (VClass g) [] = Inl (Error (cname g @ '' is abstract!''))"
    using assms(2) by (rule new_guarded)
  have stop: "copyInstances (VClass g # post) t = Inl (Error (cname g @ '' is abstract!''))" for t
    using g by simp
  have exact: "copyInstances pre t = Inr p \<Longrightarrow>
      copyInstances (pre @ VClass g # post) t = Inl (Error (cname g @ '' is abstract!''))" for t p
    by (simp add: copyInstances_append stop del: copyInstances.simps)
  have 1: "construct composite args this \<noteq> Inr inst" for inst
    using assms(1) by (rule construct_aggregation_blocked[where v = "VClass g"]) (simp_all add: g)
  have 2: "construct composite args this = Inl (Error (cname g @ '' is abstract!''))"
    if "baseClass = VClass B" "construct B args this = Inr this1" "copyInstances pre (own this1) = Inr p"
    for B this1 p
    using construct_aggregation[OF assms(1)[unfolded that(1)], of args this] that(2) exact[OF that(3)]
    by simp
  from 1 2 show ?thesis by blast
qed

text \<open>Photocopier: the base Printer lets the subclass through, then \<^verbatim>\<open>new Scanner()\<close> throws.\<close>

theorem guarded_provider_blocks_construction_witness:
  "\<exists>composite P. aggregation (VClass Printer) ([] @ VClass Scanner # []) = Inr composite
     \<and> guarded Scanner
     \<and> Photocopier = Inr P
     \<and> construct Printer [] (fresh P) = Inr (fresh P)
     \<and> copyInstances [] (own (fresh P)) = Inr []
     \<and> new (VClass P) [] = Inl (Error ''Scanner is abstract!'')"
proof -
  have "\<exists>composite. aggregation (VClass Printer) [VClass Scanner] = Inr composite"
    by (rule aggregation_total) (simp_all add: providers string_keyed_Scanner)
  then obtain composite where agg: "aggregation (VClass Printer) ([] @ VClass Scanner # []) = Inr composite"
    by auto
  define P where "P = mk_class ''Photocopier'' (Extends composite) 0 (\<lambda>args. args) no_body
            [(Name ''print'', Data (Fn ''Photocopier.print'')),
             (Name ''scan'', Data (Fn ''Photocopier.scan''))] []"
  have P: "Photocopier = Inr P"
    using agg by (simp add: Photocopier_def class_extends_def P_def)
  have d: "declared P" and n: "class_name P = Inr (Str ''Photocopier'')"
    by (simp_all add: P_def declared_mk_class class_name_mk_class)
  have hg: "has_guard Printer"
    using guarded_Printer by (simp add: guarded_def)
  have base: "construct Printer [] (fresh P) = Inr (fresh P)"
    using construct_guarded[OF hg d, of "[]"] n by (simp add: Printer_def mk_class_eval)
  have none: "copyInstances [] (own (fresh P)) = Inr []"
    by (simp add: fresh_def)
  from guarded_provider_blocks_construction[OF agg guarded_Scanner, of "[]" "fresh P"] base none
  have "construct composite [] (fresh P) = Inl (Error (cname Scanner @ '' is abstract!''))"
    by blast
  then have "new (VClass P) [] = Inl (Error ''Scanner is abstract!'')"
    by (simp add: new_def P_def mk_class_eval Scanner_def)
  with agg guarded_Scanner P base none show ?thesis by blast
qed

text \<open>
  Scanner is guarded and in the list, and what construction throws is Printer's error, or
  the TypeError of \<^verbatim>\<open>super()\<close> under \<^verbatim>\<open>extends null\<close>. And a provider \<^verbatim>\<open>Shape\<close> with
  the guard and \<^verbatim>\<open>static name = 'Form'\<close> does not block construction.
\<close>

theorem another_error_comes_first:
  "guarded Scanner
   \<and> new_of (aggregation (VClass Document) [VClass Printer, VClass Scanner]) []
       = Inl (Error ''Printer is abstract!'')
   \<and> new_of (aggregation VNull [VClass Scanner]) [] = Inl (TypeError NotAConstructor)
   \<and> has_guard (mk_class ''Shape'' NoExtends 0 (\<lambda>args. args) (abstract_guard ''Shape'') []
         [(Name ''name'', Data (Str ''Form''))])
   \<and> new_of (aggregation (VClass Document)
         [VClass (mk_class ''Shape'' NoExtends 0 (\<lambda>args. args) (abstract_guard ''Shape'') []
            [(Name ''name'', Data (Str ''Form''))])]) []
       = Inr \<lparr>own = [], protos =
            [[(Name ''constructor'', Data (ClassRef ''base'' (Data (Str ''base''))))],
             [(Name ''constructor'', Data (ClassRef ''Document'' (Data (Str ''Document''))))]]\<rparr>"
proof -
  have "\<exists>c. aggregation (VClass Document) [VClass Printer, VClass Scanner] = Inr c"
    by (rule aggregation_total)
       (auto simp: providers string_keyed_Printer string_keyed_Scanner)
  then obtain c where a: "aggregation (VClass Document) [VClass Printer, VClass Scanner] = Inr c" ..
  have p: "new (VClass Printer) [] = Inl (Error ''Printer is abstract!'')"
    using new_guarded[OF guarded_Printer, of "[]"] by (simp add: Printer_def mk_class_eval)
  have ci: "copyInstances [VClass Printer, VClass Scanner] [] = Inl (Error ''Printer is abstract!'')"
    by (simp add: p)
  have 1: "new_of (aggregation (VClass Document) [VClass Printer, VClass Scanner]) []
       = Inl (Error ''Printer is abstract!'')"
    by (simp add: a new_of_def new_def construct_aggregation[OF a] construct_Document ci own_fresh
        del: copyInstances.simps)
  have "\<exists>c. aggregation VNull [VClass Scanner] = Inr c"
    by (rule aggregation_total)
       (auto simp: providers string_keyed_Scanner)
  then obtain n where b: "aggregation VNull [VClass Scanner] = Inr n" ..
  have 2: "new_of (aggregation VNull [VClass Scanner]) [] = Inl (TypeError NotAConstructor)"
    using aggregation_frame(5)[OF b] by (simp add: b new_of_def new_def construct_ExtendsNull)
  have 3: "has_guard (mk_class ''Shape'' NoExtends 0 (\<lambda>args. args) (abstract_guard ''Shape'') []
         [(Name ''name'', Data (Str ''Form''))])
   \<and> new_of (aggregation (VClass Document)
         [VClass (mk_class ''Shape'' NoExtends 0 (\<lambda>args. args) (abstract_guard ''Shape'') []
            [(Name ''name'', Data (Str ''Form''))])]) []
       = Inr \<lparr>own = [], protos =
            [[(Name ''constructor'', Data (ClassRef ''base'' (Data (Str ''base''))))],
             [(Name ''constructor'', Data (ClassRef ''Document'' (Data (Str ''Document''))))]]\<rparr>"
    by (simp add: has_guard_def new_of_def new_def fresh_def aggregation_def class_extends_def
        Document_def eval_copy eval_guard)
  from guarded_Scanner 1 2 3 show ?thesis by simp
qed

end
